theory Spec2Isabelle
  imports Complex_Main
begin

section \<open>Planetaria: the canvas scene of PlanetCanvas.tsx\<close>

text \<open>
  The scene renderer of \<^verbatim>\<open>src/components/PlanetCanvas.tsx\<close>, embedded function by
  function. JavaScript numbers are modelled as real numbers: every constant and every
  operation is the source's, computed exactly (the rounding of IEEE doubles is not part
  of the model). Array indices held in a Connection are integers, as the source's
  sentinel \<^verbatim>\<open>bestIdx = -1\<close> needs. A call of \<^verbatim>\<open>Math.random()\<close> reads the next
  element of a random source \<open>g :: nat \<Rightarrow> real\<close> at a position \<open>k\<close> that every function
  consuming randomness takes and returns; a well-formed source yields values in
  \<open>[0, 1)\<close>. The mutable refs of the component are the fields of the record \<open>Scene\<close>,
  passed in and returned updated.
\<close>

subsection \<open>Data model (lines 3-37)\<close>

record ClusterNode =
  node_dx :: real
  node_dy :: real
  node_size :: real
  opacityOffset :: real

record Star =
  star_x :: real
  star_y :: real
  star_z :: real
  star_size :: real
  baseOpacity :: real
  opacity :: real
  twinkleSpeed :: real
  clusterNodes :: "ClusterNode list option"

datatype ConnState = Growing | Holding | Fading

record Connection =
  startIdx :: int
  endIdx :: int
  life :: real
  state :: ConnState
  maxLife :: real

record PlanetPoint =
  pt_x :: real
  pt_y :: real
  pt_z :: real
  baseX :: real
  baseY :: real
  baseZ :: real
  noise :: real

text \<open>
  The canvas element: its pixel size and whether \<^verbatim>\<open>getContext('2d')\<close> yields a
  drawing context.
\<close>

record Canvas =
  cwidth :: real
  cheight :: real
  context2d :: bool

text \<open>
  The refs of the component (lines 40-56), the two pieces of the environment the code
  reads (the random source with its position, and the container's client size behind
  \<^verbatim>\<open>containerRef\<close>), and whether the browser holds a pending animation-frame
  callback. \<open>canvas = None\<close> is \<^verbatim>\<open>canvasRef.current === null\<close>.
\<close>

record Scene =
  canvas :: "Canvas option"
  container :: "(real \<times> real) option"
  stars :: "Star list"
  connections :: "Connection list"
  planetPoints :: "PlanetPoint list"
  requestRef :: nat
  mouse :: "real \<times> real"
  lookAt :: "real \<times> real"
  zoom :: real
  targetZoom :: real
  lastTouchDist :: "real option"
  rotation :: real
  frameScheduled :: bool
  rnd :: "nat \<Rightarrow> real"
  rpos :: nat

text \<open>A well-formed random source: every value lies in \<open>[0, 1)\<close>, as \<^verbatim>\<open>Math.random()\<close> promises.\<close>

definition validRandom :: "(nat \<Rightarrow> real) \<Rightarrow> bool" where
  "validRandom g = (\<forall>n. 0 \<le> g n \<and> g n < 1)"

text \<open>
  \<^verbatim>\<open>stars[i]\<close>: the element when \<open>i\<close> is an index of the array, \<^verbatim>\<open>undefined\<close>
  (here \<open>None\<close>) otherwise.
\<close>

definition star_at :: "Star list \<Rightarrow> int \<Rightarrow> Star option" where
  "star_at ss i = (if 0 \<le> i \<and> nat i < length ss then Some (ss ! nat i) else None)"

subsection \<open>initStars (lines 58-106)\<close>

definition starCount :: "real \<Rightarrow> real \<Rightarrow> int" where
  "starCount width height =
     (let area = width * height
      in min 2500 (max 600 \<lfloor>area / 350\<rfloor>))"

text \<open>The inner loop of lines 84-91: \<open>n\<close> cluster nodes, four random draws each.\<close>

fun clusterLoop :: "(nat \<Rightarrow> real) \<Rightarrow> nat \<Rightarrow> nat \<Rightarrow> ClusterNode list" where
  "clusterLoop g k 0 = []"
| "clusterLoop g k (Suc n) =
     \<lparr>node_dx = (g k - 0.5) * 40,
      node_dy = (g (k + 1) - 0.5) * 40,
      node_size = g (k + 2) * 0.8 + 0.3,
      opacityOffset = g (k + 3)\<rparr> # clusterLoop g (k + 4) n"

text \<open>
  One iteration of the loop of lines 67-104: the star pushed and the position of the
  random source afterwards. The draws are taken in the order the source evaluates them.
\<close>

definition genStar :: "real \<Rightarrow> real \<Rightarrow> (nat \<Rightarrow> real) \<Rightarrow> nat \<Rightarrow> Star \<times> nat" where
  "genStar width height g k =
     (let z = g k * 3.8 + 0.2;
          spreadFactor = 1.5 * z;
          x = (g (k + 1) - 0.5) * width * spreadFactor;
          y = (g (k + 2) - 0.5) * height * spreadFactor;
          isCluster = (g (k + 3) < 0.04);
          count = (if isCluster then nat \<lfloor>g (k + 4) * 3\<rfloor> + 3 else 0);
          nodes = (if isCluster then Some (clusterLoop g (k + 5) count) else None);
          k1 = (if isCluster then k + 5 + 4 * count else k + 4)
      in (\<lparr>star_x = x,
           star_y = y,
           star_z = z,
           star_size = g k1 * 1.5 + 0.5,
           baseOpacity = g (k1 + 1) * 0.5 + 0.3,
           opacity = g (k1 + 2),
           twinkleSpeed = (g (k1 + 3) * 0.01 + 0.002) * (if g (k1 + 4) > 0.5 then 1 else - 1),
           clusterNodes = nodes\<rparr>, k1 + 5))"

fun initStarsLoop :: "real \<Rightarrow> real \<Rightarrow> (nat \<Rightarrow> real) \<Rightarrow> nat \<Rightarrow> nat \<Rightarrow> Star list \<times> nat" where
  "initStarsLoop width height g k 0 = ([], k)"
| "initStarsLoop width height g k (Suc n) =
     (let (s, k1) = genStar width height g k;
          (rest, k2) = initStarsLoop width height g k1 n
      in (s # rest, k2))"

definition initStars :: "real \<Rightarrow> real \<Rightarrow> (nat \<Rightarrow> real) \<Rightarrow> nat \<Rightarrow> Star list \<times> nat" where
  "initStars width height g k =
     initStarsLoop width height g k (nat (starCount width height))"

subsection \<open>initPlanet (lines 108-138)\<close>

definition numPoints :: nat where
  "numPoints = 1400"

definition phi :: real where
  "phi = pi * (3 - sqrt 5)"

text \<open>The body of the loop of lines 119-136 at index \<open>i\<close>, with the noise drawn for it.\<close>

definition planetPointAt :: "real \<Rightarrow> nat \<Rightarrow> real \<Rightarrow> PlanetPoint" where
  "planetPointAt radius i nz =
     (let y = 1 - (real i / (real numPoints - 1)) * 2;
          r = sqrt (1 - y * y);
          theta = phi * real i;
          x = cos theta * r;
          z = sin theta * r
      in \<lparr>pt_x = x * radius, pt_y = y * radius, pt_z = z * radius,
          baseX = x * radius, baseY = y * radius, baseZ = z * radius,
          noise = nz\<rparr>)"

definition initPlanet :: "real \<Rightarrow> real \<Rightarrow> (nat \<Rightarrow> real) \<Rightarrow> nat \<Rightarrow> PlanetPoint list \<times> nat" where
  "initPlanet width height g k =
     (let minDim = min width height;
          radius = minDim * 0.30
      in (map (\<lambda>i. planetPointAt radius i (g (k + i))) [0..<numPoints], k + numPoints))"

subsection \<open>The frame callback animate (lines 140-463)\<close>

text \<open>The rotation about the Y axis of lines 217-219: \<open>(rotX, rotY, rotZ)\<close>.\<close>

definition rotatePoint :: "real \<Rightarrow> PlanetPoint \<Rightarrow> real \<times> real \<times> real" where
  "rotatePoint rot p =
     (let cosRot = cos rot;
          sinRot = sin rot;
          rotX = baseX p * cosRot - baseZ p * sinRot;
          rotZ = baseX p * sinRot + baseZ p * cosRot;
          rotY = baseY p
      in (rotX, rotY, rotZ))"

text \<open>
  Lines 269-289, for one star: the depth decreases by the drift speed, and a star that
  came too close is recycled to the far plane, with two random draws for its position.
\<close>

definition driftSpeed :: real where
  "driftSpeed = 0.002"

definition driftStar :: "real \<Rightarrow> real \<Rightarrow> (nat \<Rightarrow> real) \<Rightarrow> nat \<Rightarrow> Star \<Rightarrow> Star \<times> nat" where
  "driftStar w h g k star =
     (let s1 = star\<lparr>star_z := star_z star - driftSpeed\<rparr>
      in if star_z s1 \<le> 0.2 then
           (let s2 = s1\<lparr>star_z := 4.0\<rparr>;
                spreadFactor = 1.5 * star_z s2
            in (s2\<lparr>star_x := (g k - 0.5) * w * spreadFactor,
                   star_y := (g (k + 1) - 0.5) * h * spreadFactor,
                   opacity := 0\<rparr>, k + 2))
         else (s1, k))"

fun driftStars :: "real \<Rightarrow> real \<Rightarrow> (nat \<Rightarrow> real) \<Rightarrow> nat \<Rightarrow> Star list \<Rightarrow> Star list \<times> nat" where
  "driftStars w h g k [] = ([], k)"
| "driftStars w h g k (star # rest) =
     (let (s, k1) = driftStar w h g k star;
          (rest', k2) = driftStars w h g k1 rest
      in (s # rest', k2))"

text \<open>
  The candidate search of lines 297-316. \<open>bestDist\<close> starts at \<^verbatim>\<open>Infinity\<close>, here
  \<open>None\<close>; \<open>n\<close> is the number of iterations left and each one draws one random number.
\<close>

definition lessThanBest :: "real \<Rightarrow> real option \<Rightarrow> bool" where
  "lessThanBest d bestDist = (case bestDist of None \<Rightarrow> True | Some b \<Rightarrow> d < b)"

definition sqDist :: "Star \<Rightarrow> Star \<Rightarrow> real" where
  "sqDist startStar s2 =
     (let dx = star_x startStar - star_x s2;
          dy = star_y startStar - star_y s2
      in dx * dx + dy * dy)"

fun candLoop :: "Star list \<Rightarrow> int \<Rightarrow> Star \<Rightarrow> (nat \<Rightarrow> real) \<Rightarrow> nat \<Rightarrow> nat
    \<Rightarrow> real option \<times> int \<Rightarrow> real option \<times> int" where
  "candLoop ss startI startStar g k 0 best = best"
| "candLoop ss startI startStar g k (Suc n) best =
     (let checkIdx = \<lfloor>g k * real (length ss)\<rfloor>
      in if checkIdx = startI then candLoop ss startI startStar g (k + 1) n best
         else (case star_at ss checkIdx of
                 None \<Rightarrow> candLoop ss startI startStar g (k + 1) n best
               | Some s2 \<Rightarrow>
                   (let dist = sqDist startStar s2
                    in if dist < 50000 * star_z startStar \<and> lessThanBest dist (fst best)
                          \<and> \<bar>star_z startStar - star_z s2\<bar> < 0.5
                       then candLoop ss startI startStar g (k + 1) n (Some dist, checkIdx)
                       else candLoop ss startI startStar g (k + 1) n best)))"

text \<open>Lines 292-328: the spawn attempt. The result is the connection list and the position of the random source.\<close>

definition spawnConnection :: "Star list \<Rightarrow> (nat \<Rightarrow> real) \<Rightarrow> nat \<Rightarrow> Connection list
    \<Rightarrow> Connection list \<times> nat" where
  "spawnConnection ss g k conns =
     (if length ss > 0 then
        (if g k < 0.03 then
           (let startI = \<lfloor>g (k + 1) * real (length ss)\<rfloor>
            in case star_at ss startI of
                 None \<Rightarrow> (conns, k + 2)
               | Some startStar \<Rightarrow>
                   if star_z startStar < 3.0 \<and> star_z startStar > 0.5 then
                     (let best = candLoop ss startI startStar g (k + 2) 20 (None, - 1);
                          bestIdx = snd best
                      in if bestIdx \<noteq> - 1 then
                           (conns @ [\<lparr>startIdx = startI, endIdx = bestIdx, life = 0,
                                      state = Growing, maxLife = g (k + 22) * 0.4 + 0.6\<rparr>],
                            k + 23)
                         else (conns, k + 22))
                   else (conns, k + 2))
         else (conns, k + 1))
      else (conns, k))"

text \<open>Lines 335-343: the life and the state of one connection advance by one frame.\<close>

definition updateLife :: "Connection \<Rightarrow> Connection" where
  "updateLife conn =
     (if state conn = Growing then
        (let c1 = conn\<lparr>life := life conn + 0.04\<rparr>
         in if life c1 \<ge> maxLife c1 then c1\<lparr>state := Holding\<rparr> else c1)
      else if state conn = Holding then
        (let c1 = conn\<lparr>life := life conn - 0.005\<rparr>
         in if life c1 < maxLife c1 * 0.8 then c1\<lparr>state := Fading\<rparr> else c1)
      else conn\<lparr>life := life conn - 0.015\<rparr>)"

text \<open>
  What the frame's camera hands to the drawing code: zoom, centre, combined offset and
  the canvas size.
\<close>

record DrawEnv =
  env_zoom :: real
  env_cx :: real
  env_cy :: real
  env_offsetX :: real
  env_offsetY :: real
  env_width :: real
  env_height :: real

record Line =
  line_x1 :: real
  line_y1 :: real
  line_x2 :: real
  line_y2 :: real
  lineWidth :: real
  line_alpha :: real

text \<open>
  The body of the loop of lines 332-386 for the connection at hand: it is removed
  (\<^verbatim>\<open>splice\<close> and \<^verbatim>\<open>continue\<close>), or kept, with the line drawn for it when its first
  end is on screen, and with the indices of the stars whose fields were read.
\<close>

datatype Outcome = Remove | Keep Connection "Line option" "int list"

definition stepConnection :: "DrawEnv \<Rightarrow> Star list \<Rightarrow> Connection \<Rightarrow> Outcome" where
  "stepConnection e ss c0 =
     (let conn = updateLife c0
      in if life conn \<le> 0 then Remove
         else (case star_at ss (startIdx conn) of
                 None \<Rightarrow> Remove
               | Some s1 \<Rightarrow>
                   (case star_at ss (endIdx conn) of
                      None \<Rightarrow> Remove
                    | Some s2 \<Rightarrow>
                        (let scale1 = env_zoom e / star_z s1;
                             x1 = env_cx e + (star_x s1 + env_offsetX e) * scale1;
                             y1 = env_cy e + (star_y s1 + env_offsetY e) * scale1;
                             scale2 = env_zoom e / star_z s2;
                             x2 = env_cx e + (star_x s2 + env_offsetX e) * scale2;
                             y2 = env_cy e + (star_y s2 + env_offsetY e) * scale2;
                             reads = [startIdx conn, endIdx conn]
                         in if x1 < - 50 \<or> x1 > env_width e + 50 \<or> y1 < - 50
                               \<or> y1 > env_height e + 50
                            then Keep conn None reads
                            else (let baseWidth = 0.5 + life conn * 1.5
                                  in Keep conn
                                       (Some \<lparr>line_x1 = x1, line_y1 = y1, line_x2 = x2,
                                              line_y2 = y2,
                                              lineWidth = baseWidth * (env_zoom e * 0.5),
                                              line_alpha = life conn * 0.6\<rparr>)
                                       reads)))))"

text \<open>
  The loop itself, from the last index down to 0 (\<open>Suc i\<close> is the number of entries
  still to visit). The accumulator is the array being mutated in place, the lines
  drawn so far and the star indices dereferenced so far.
\<close>

definition splice1 :: "'a list \<Rightarrow> nat \<Rightarrow> 'a list" where
  "splice1 xs i = take i xs @ drop (Suc i) xs"

fun connLoop :: "DrawEnv \<Rightarrow> Star list \<Rightarrow> nat \<Rightarrow> Connection list \<times> Line list \<times> int list
    \<Rightarrow> Connection list \<times> Line list \<times> int list" where
  "connLoop e ss 0 acc = acc"
| "connLoop e ss (Suc i) (cs, ls, ds) =
     (case stepConnection e ss (cs ! i) of
        Remove \<Rightarrow> connLoop e ss i (splice1 cs i, ls, ds)
      | Keep conn None reads \<Rightarrow> connLoop e ss i (cs[i := conn], ls, ds @ reads)
      | Keep conn (Some l) reads \<Rightarrow> connLoop e ss i (cs[i := conn], ls @ [l], ds @ reads))"

definition updateConnections :: "DrawEnv \<Rightarrow> Star list \<Rightarrow> Connection list
    \<Rightarrow> Connection list \<times> Line list \<times> int list" where
  "updateConnections e ss cs = connLoop e ss (length cs) (cs, [], [])"

text \<open>Lines 393-396: the twinkle of one star.\<close>

definition twinkle :: "Star \<Rightarrow> Star" where
  "twinkle star =
     (let s1 = star\<lparr>opacity := opacity star + twinkleSpeed star\<rparr>
      in if opacity s1 > 1 \<or> opacity s1 < 0.2
         then s1\<lparr>twinkleSpeed := - twinkleSpeed s1\<rparr>
         else s1)"

text \<open>
  \<^verbatim>\<open>requestAnimationFrame(animate)\<close>: the browser now holds a pending callback; the
  handle it returns is modelled as a counter.
\<close>

definition requestAnimationFrame :: "Scene \<Rightarrow> Scene" where
  "requestAnimationFrame s = s\<lparr>requestRef := requestRef s + 1, frameScheduled := True\<rparr>"

text \<open>The camera of one frame (lines 146-176), from the scene before the frame.\<close>

definition frameEnv :: "real \<Rightarrow> Canvas \<Rightarrow> Scene \<Rightarrow> DrawEnv" where
  "frameEnv time cv s =
     (let zoom1 = zoom s + (targetZoom s - zoom s) * 0.1;
          cx = cwidth cv / 2;
          isPortrait = (cheight cv > cwidth cv);
          cy = cheight cv / 2 - (if isPortrait then cheight cv * 0.1 else 0);
          targetLookX = (fst (mouse s) - cx) * 0.05;
          targetLookY = (snd (mouse s) - cy) * 0.05;
          lookX = fst (lookAt s) + (targetLookX - fst (lookAt s)) * 0.05;
          lookY = snd (lookAt s) + (targetLookY - snd (lookAt s)) * 0.05;
          bobX = sin (time * 0.001) * 12;
          bobY = cos (time * 0.0013) * 12
      in \<lparr>env_zoom = zoom1, env_cx = cx, env_cy = cy,
          env_offsetX = lookX + bobX, env_offsetY = lookY + bobY,
          env_width = cwidth cv, env_height = cheight cv\<rparr>)"

text \<open>
  The body of the frame callback after its two guards (lines 146-462): every ref is
  advanced in the order of the source and the last line requests the next frame. The
  draw calls write to the canvas only; of them the model keeps the lines of the
  connections. The result is the scene, the lines drawn and the star indices whose
  fields the connection loop read.
\<close>

definition animateFrame :: "real \<Rightarrow> Canvas \<Rightarrow> Scene \<Rightarrow> Scene \<times> Line list \<times> int list" where
  "animateFrame time cv s =
     (let e = frameEnv time cv s;
          lookX = fst (lookAt s) + ((fst (mouse s) - env_cx e) * 0.05 - fst (lookAt s)) * 0.05;
          lookY = snd (lookAt s) + ((snd (mouse s) - env_cy e) * 0.05 - snd (lookAt s)) * 0.05;
          (stars1, k1) = driftStars (cwidth cv) (cheight cv) (rnd s) (rpos s) (stars s);
          (conns1, k2) = spawnConnection stars1 (rnd s) k1 (connections s);
          (conns2, drawn, reads) = updateConnections e stars1 conns1;
          stars2 = map twinkle stars1
      in (requestAnimationFrame
            (s\<lparr>zoom := env_zoom e,
               rotation := rotation s + 0.002,
               lookAt := (lookX, lookY),
               stars := stars2,
               connections := conns2,
               rpos := k2\<rparr>),
          drawn, reads))"

text \<open>
  The frame callback: the early returns of lines 142 and 144 leave the scene as it is
  (and request no frame); otherwise the frame runs.
\<close>

definition animate :: "real \<Rightarrow> Scene \<Rightarrow> Scene" where
  "animate time s =
     (case canvas s of
        None \<Rightarrow> s
      | Some cv \<Rightarrow> if \<not> context2d cv then s else fst (animateFrame time cv s))"

subsection \<open>The event handlers (lines 466-528)\<close>

definition handleResize :: "Scene \<Rightarrow> Scene" where
  "handleResize s =
     (case canvas s of
        None \<Rightarrow> s
      | Some cv \<Rightarrow>
          (case container s of
             None \<Rightarrow> s
           | Some (clientWidth, clientHeight) \<Rightarrow>
               (let (newStars, k1) = initStars clientWidth clientHeight (rnd s) (rpos s);
                    (points, k2) = initPlanet clientWidth clientHeight (rnd s) k1
                in s\<lparr>canvas := Some (cv\<lparr>cwidth := clientWidth, cheight := clientHeight\<rparr>),
                     mouse := (clientWidth / 2, clientHeight / 2),
                     stars := newStars,
                     connections := [],
                     planetPoints := points,
                     rpos := k2\<rparr>)))"

definition handleMouseMove :: "real \<Rightarrow> real \<Rightarrow> Scene \<Rightarrow> Scene" where
  "handleMouseMove clientX clientY s = s\<lparr>mouse := (clientX, clientY)\<rparr>"

definition handleWheel :: "real \<Rightarrow> Scene \<Rightarrow> Scene" where
  "handleWheel deltaY s =
     (let delta = - deltaY * 0.001
      in s\<lparr>targetZoom := max 0.5 (min 5.0 (targetZoom s + delta))\<rparr>)"

definition hypot :: "real \<Rightarrow> real \<Rightarrow> real" where
  "hypot a b = sqrt (a * a + b * b)"

definition handleTouchStart :: "(real \<times> real) list \<Rightarrow> Scene \<Rightarrow> Scene" where
  "handleTouchStart touches s =
     (if length touches = 1 then s\<lparr>mouse := touches ! 0\<rparr>
      else if length touches = 2 then
        (let t1 = touches ! 0; t2 = touches ! 1
         in s\<lparr>lastTouchDist := Some (hypot (fst t1 - fst t2) (snd t1 - snd t2))\<rparr>)
      else s)"

definition handleTouchMove :: "(real \<times> real) list \<Rightarrow> Scene \<Rightarrow> Scene" where
  "handleTouchMove touches s =
     (if length touches = 1 then s\<lparr>mouse := touches ! 0\<rparr>
      else if length touches = 2 then
        (case lastTouchDist s of
           None \<Rightarrow> s
         | Some lastDist \<Rightarrow>
             (let t1 = touches ! 0; t2 = touches ! 1;
                  dist = hypot (fst t1 - fst t2) (snd t1 - snd t2);
                  deltaDist = dist - lastDist;
                  zoomSensitivity = 0.008
              in s\<lparr>targetZoom := max 0.5 (min 5.0 (targetZoom s + deltaDist * zoomSensitivity)),
                   lastTouchDist := Some dist\<rparr>))
      else s)"

definition handleTouchEnd :: "Scene \<Rightarrow> Scene" where
  "handleTouchEnd s = s\<lparr>lastTouchDist := None\<rparr>"

subsection \<open>The mounted component and its events\<close>

text \<open>
  The refs as \<^verbatim>\<open>useRef\<close> initialises them (lines 43-56), for a given canvas,
  container and random source.
\<close>

definition initialScene :: "Canvas option \<Rightarrow> (real \<times> real) option \<Rightarrow> (nat \<Rightarrow> real) \<Rightarrow> Scene" where
  "initialScene cv ct g =
     \<lparr>canvas = cv, container = ct, stars = [], connections = [], planetPoints = [],
      requestRef = 0, mouse = (0, 0), lookAt = (0, 0), zoom = 1, targetZoom = 1,
      lastTouchDist = None, rotation = 0, frameScheduled = False, rnd = g, rpos = 0\<rparr>"

text \<open>The effect of lines 465-537 on mount: one resize, then the first frame is requested.\<close>

definition mount :: "Canvas option \<Rightarrow> (real \<times> real) option \<Rightarrow> (nat \<Rightarrow> real) \<Rightarrow> Scene" where
  "mount cv ct g = requestAnimationFrame (handleResize (initialScene cv ct g))"

text \<open>
  The events the component listens to. A resize event carries the container's new
  client size; a frame event is the browser running the pending callback, which
  consumes the request.
\<close>

datatype Event =
    Resize real real
  | MouseMove real real
  | Wheel real
  | TouchStart "(real \<times> real) list"
  | TouchMove "(real \<times> real) list"
  | TouchEnd
  | Frame real

fun dispatch :: "Scene \<Rightarrow> Event \<Rightarrow> Scene" where
  "dispatch s (Resize w h) =
     handleResize (s\<lparr>container := map_option (\<lambda>_. (w, h)) (container s)\<rparr>)"
| "dispatch s (MouseMove x y) = handleMouseMove x y s"
| "dispatch s (Wheel deltaY) = handleWheel deltaY s"
| "dispatch s (TouchStart touches) = handleTouchStart touches s"
| "dispatch s (TouchMove touches) = handleTouchMove touches s"
| "dispatch s TouchEnd = handleTouchEnd s"
| "dispatch s (Frame time) =
     (if frameScheduled s then animate time (s\<lparr>frameScheduled := False\<rparr>) else s)"

definition run :: "Scene \<Rightarrow> Event list \<Rightarrow> Scene" where
  "run s evs = foldl dispatch s evs"

subsection \<open>Notions used to state the properties\<close>

text \<open>The specification's \<open>clamp(v, lo, hi)\<close>: \<open>v\<close> brought into \<open>[lo, hi]\<close>.\<close>

definition clamp :: "int \<Rightarrow> int \<Rightarrow> int \<Rightarrow> int" where
  "clamp v lo hi = (if v < lo then lo else if hi < v then hi else v)"

text \<open>
  A connection survives a frame when, after its life was advanced, the life is positive
  and both of its indices are indices of the stars array.
\<close>

definition keepConn :: "Star list \<Rightarrow> Connection \<Rightarrow> bool" where
  "keepConn ss c =
     (life c > 0 \<and> star_at ss (startIdx c) \<noteq> None \<and> star_at ss (endIdx c) \<noteq> None)"

text \<open>The order of the three states of a connection.\<close>

fun stateRank :: "ConnState \<Rightarrow> nat" where
  "stateRank Growing = 0"
| "stateRank Holding = 1"
| "stateRank Fading = 2"

text \<open>Both indices of a connection are indices of the stars array.\<close>

definition validConn :: "Star list \<Rightarrow> Connection \<Rightarrow> bool" where
  "validConn ss c = (star_at ss (startIdx c) \<noteq> None \<and> star_at ss (endIdx c) \<noteq> None)"

definition connsValid :: "Scene \<Rightarrow> bool" where
  "connsValid s = list_all (validConn (stars s)) (connections s)"

text \<open>The connection pushed at lines 319-325, for given indices and \<open>maxLife\<close>.\<close>

definition newConnection :: "int \<Rightarrow> int \<Rightarrow> real \<Rightarrow> Connection" where
  "newConnection i j m = \<lparr>startIdx = i, endIdx = j, life = 0, state = Growing, maxLife = m\<rparr>"

text \<open>Small concrete values, to evaluate the functions on.\<close>

definition exampleStar :: "real \<Rightarrow> real \<Rightarrow> real \<Rightarrow> Star" where
  "exampleStar x y z =
     \<lparr>star_x = x, star_y = y, star_z = z, star_size = 1, baseOpacity = 0.5, opacity = 0.5,
      twinkleSpeed = 0.01, clusterNodes = None\<rparr>"

definition exampleEnv :: DrawEnv where
  "exampleEnv = \<lparr>env_zoom = 1, env_cx = 400, env_cy = 300, env_offsetX = 0, env_offsetY = 0,
      env_width = 800, env_height = 600\<rparr>"

definition exampleCanvas :: Canvas where
  "exampleCanvas = \<lparr>cwidth = 800, cheight = 600, context2d = True\<rparr>"

text \<open>A canvas for which \<^verbatim>\<open>getContext('2d')\<close> yields \<^verbatim>\<open>null\<close>.\<close>

definition noContextCanvas :: Canvas where
  "noContextCanvas = \<lparr>cwidth = 300, cheight = 150, context2d = False\<rparr>"

text \<open>A scene of two stars with one connection between them and one stale connection.\<close>

definition exampleScene :: Scene where
  "exampleScene =
     (initialScene (Some exampleCanvas) (Some (800, 600)) (\<lambda>n. 1 / 2))
       \<lparr>stars := [exampleStar 0 0 1, exampleStar 10 0 1],
        connections := [newConnection 0 1 0.8, newConnection 0 7 0.8]\<rparr>"

text \<open>
  The condition of the two early returns of the frame callback: no canvas, or no
  drawing context.
\<close>

definition surfaceUnavailable :: "Scene \<Rightarrow> bool" where
  "surfaceUnavailable s = (case canvas s of None \<Rightarrow> True | Some cv \<Rightarrow> \<not> context2d cv)"

text \<open>
  The refs to the canvas and to the container are set by the framework before the
  effect runs and the code never assigns them, so they are the same in every state
  reached from the mounted scene. Without a canvas no frame runs and without a container
  no resize runs, which this invariant records.
\<close>

definition refsInv :: "Scene \<Rightarrow> bool" where
  "refsInv s =
     ((canvas s = None \<longrightarrow> connections s = [])
      \<and> (container s = None \<longrightarrow> stars s = [] \<and> connections s = []))"

text \<open>
  The random source is well formed and every star's depth lies in \<open>[0.2, 4.0]\<close>: an
  invariant of the states reached from the mounted scene.
\<close>

definition depthsOk :: "Scene \<Rightarrow> bool" where
  "depthsOk s =
     (validRandom (rnd s)
      \<and> list_all (\<lambda>st. 0.2 \<le> star_z st \<and> star_z st \<le> 4.0) (stars s))"

text \<open>
  The Fibonacci-sphere formula in the specification's words, for \<open>N\<close> points, a radius
  and a point index \<open>i\<close>: \<open>y = 1 - 2i/(N-1)\<close>, \<open>r = sqrt(1 - y\<^sup>2)\<close>,
  \<open>theta = i * pi * (3 - sqrt 5)\<close>, \<open>x = cos(theta) * r\<close>, \<open>z = sin(theta) * r\<close>,
  scaled by the radius. It is compared below with what \<open>initPlanet\<close> computes.
\<close>

definition fibSphere :: "nat \<Rightarrow> real \<Rightarrow> nat \<Rightarrow> real \<times> real \<times> real" where
  "fibSphere N radius i =
     (let y = 1 - 2 * real i / (real N - 1);
          r = sqrt (1 - y\<^sup>2);
          theta = real i * (pi * (3 - sqrt 5));
          x = cos theta * r;
          z = sin theta * r
      in (x * radius, y * radius, z * radius))"

text \<open>The Euclidean norm of a position, and the base position of a planet point.\<close>

definition norm3 :: "real \<times> real \<times> real \<Rightarrow> real" where
  "norm3 v = (case v of (x, y, z) \<Rightarrow> sqrt (x\<^sup>2 + y\<^sup>2 + z\<^sup>2))"

definition basePos :: "PlanetPoint \<Rightarrow> real \<times> real \<times> real" where
  "basePos p = (baseX p, baseY p, baseZ p)"

text \<open>
  The notions of the spawn claim. A candidate index qualifies for a start star when it
  is an index of the array, the squared distance of its star from the start star is
  below \<open>50000 * startDepth\<close> and the depths differ by less than 0.5; \<open>distTo\<close> is
  that squared distance. \<open>examined\<close> lists the candidate indices the search really
  examines in \<open>n\<close> iterations: those drawn that are neither the start index nor outside
  the array.
\<close>

definition qualifies :: "Star list \<Rightarrow> Star \<Rightarrow> int \<Rightarrow> bool" where
  "qualifies ss startStar i =
     (case star_at ss i of
        None \<Rightarrow> False
      | Some s2 \<Rightarrow> sqDist startStar s2 < 50000 * star_z startStar
                    \<and> \<bar>star_z startStar - star_z s2\<bar> < 0.5)"

definition distTo :: "Star list \<Rightarrow> Star \<Rightarrow> int \<Rightarrow> real" where
  "distTo ss startStar i = (case star_at ss i of None \<Rightarrow> 0 | Some s2 \<Rightarrow> sqDist startStar s2)"

fun examined :: "Star list \<Rightarrow> int \<Rightarrow> (nat \<Rightarrow> real) \<Rightarrow> nat \<Rightarrow> nat \<Rightarrow> int list" where
  "examined ss startI g k 0 = []"
| "examined ss startI g k (Suc n) =
     (let checkIdx = \<lfloor>g k * real (length ss)\<rfloor>
      in if checkIdx = startI \<or> star_at ss checkIdx = None
         then examined ss startI g (k + 1) n
         else checkIdx # examined ss startI g (k + 1) n)"

text \<open>
  The invariant of the candidate search over the candidates seen so far: nothing
  qualified yet and the best is still the initial one, or the best is a qualifying
  candidate seen, at the least distance among the qualifying ones.
\<close>

definition bestInv :: "Star list \<Rightarrow> Star \<Rightarrow> int list \<Rightarrow> real option \<times> int \<Rightarrow> bool" where
  "bestInv ss startStar seen best =
     ((fst best = None \<and> snd best = - 1 \<and> (\<forall>c \<in> set seen. \<not> qualifies ss startStar c))
      \<or> (snd best \<in> set seen \<and> qualifies ss startStar (snd best)
          \<and> fst best = Some (distTo ss startStar (snd best))
          \<and> (\<forall>c \<in> set seen. qualifies ss startStar c
                \<longrightarrow> distTo ss startStar (snd best) \<le> distTo ss startStar c)))"

text \<open>A random source for the examples: two draws of 0, then 1/2 forever.\<close>

definition exampleRandom :: "nat \<Rightarrow> real" where
  "exampleRandom n = (if n < 2 then 0 else 1 / 2)"

text \<open>
  The screen position of a star, as lines 360-362 (and 398-400) project it, and the
  squared distance of two stars on screen. \<open>qualifiesOnScreen\<close> is the reading of the
  spawn claim in which the distance bound is on the squared screen-space distance; the
  code measures the distance over the stars' own \<open>x\<close> and \<open>y\<close> instead.
\<close>

definition screenPos :: "DrawEnv \<Rightarrow> Star \<Rightarrow> real \<times> real" where
  "screenPos e star =
     (let scale = env_zoom e / star_z star;
          x = env_cx e + (star_x star + env_offsetX e) * scale;
          y = env_cy e + (star_y star + env_offsetY e) * scale
      in (x, y))"

definition screenSqDist :: "DrawEnv \<Rightarrow> Star \<Rightarrow> Star \<Rightarrow> real" where
  "screenSqDist e a b =
     (fst (screenPos e a) - fst (screenPos e b))\<^sup>2 + (snd (screenPos e a) - snd (screenPos e b))\<^sup>2"

definition qualifiesOnScreen :: "DrawEnv \<Rightarrow> Star list \<Rightarrow> Star \<Rightarrow> int \<Rightarrow> bool" where
  "qualifiesOnScreen e ss startStar i =
     (case star_at ss i of
        None \<Rightarrow> False
      | Some s2 \<Rightarrow> screenSqDist e startStar s2 < 50000 * star_z startStar
                    \<and> \<bar>star_z startStar - star_z s2\<bar> < 0.5)"

text \<open>A second random source: two draws of 0, one of 1/2, then 9/10 forever.\<close>

definition exampleRandom2 :: "nat \<Rightarrow> real" where
  "exampleRandom2 n = (if n < 2 then 0 else if n = 2 then 1 / 2 else 9 / 10)"

section \<open>Properties\<close>

subsection \<open>The star count\<close>

lemma length_initStarsLoop: "length (fst (initStarsLoop w h g k n)) = n"
  by (induction n arbitrary: k) (simp_all add: split_def Let_def)

lemma min_max_clamp: "min 2500 (max 600 v) = clamp v 600 2500"
  by (simp add: clamp_def)

lemma starCount_clamp: "starCount w h = clamp \<lfloor>w * h / 350\<rfloor> 600 2500"
  unfolding starCount_def Let_def by (rule min_max_clamp)

lemma starCount_nonneg: "0 \<le> starCount w h"
  by (simp add: starCount_def Let_def)

lemma length_initStars: "int (length (fst (initStars w h g k))) = starCount w h"
  by (simp add: initStars_def length_initStarsLoop starCount_nonneg)

text \<open>
  Claim C4. For every surface width \<open>W\<close> and height \<open>H\<close>, \<open>initStars\<close> produces exactly
  \<open>clamp(floor(W*H/350), 600, 2500)\<close> stars, whatever the random source; a 1000 by 800
  surface yields 2285 stars, a 100 by 100 surface 600 and a 3000 by 3000 surface 2500.
\<close>

theorem initStars_count:
  "int (length (fst (initStars w h g k))) = clamp \<lfloor>w * h / 350\<rfloor> 600 2500
   \<and> length (fst (initStars 1000 800 g k)) = 2285
   \<and> length (fst (initStars 100 100 g k)) = 600
   \<and> length (fst (initStars 3000 3000 g k)) = 2500"
proof -
  have a: "starCount 1000 800 = 2285"
    by (simp add: starCount_def Let_def)
  have b: "starCount 100 100 = 600"
    by (simp add: starCount_def Let_def)
  have c: "starCount 3000 3000 = 2500"
    by (simp add: starCount_def Let_def)
  show ?thesis
    using length_initStars[of w h g k] length_initStars[of 1000 800 g k]
      length_initStars[of 100 100 g k] length_initStars[of 3000 3000 g k] a b c
    by (simp add: starCount_clamp)
qed

subsection \<open>The target zoom\<close>

lemma handleWheel_range:
  "0.5 \<le> targetZoom (handleWheel d s) \<and> targetZoom (handleWheel d s) \<le> 5"
  by (simp add: handleWheel_def Let_def)

lemma handleTouchMove_range:
  "0.5 \<le> targetZoom s \<and> targetZoom s \<le> 5 \<Longrightarrow>
   0.5 \<le> targetZoom (handleTouchMove ts s) \<and> targetZoom (handleTouchMove ts s) \<le> 5"
  by (auto simp add: handleTouchMove_def Let_def max_def min_def split: option.splits)

lemma animate_targetZoom: "targetZoom (animate t s) = targetZoom s"
  by (simp add: animate_def animateFrame_def Let_def requestAnimationFrame_def split_def
      split: option.splits)

lemma handleResize_targetZoom: "targetZoom (handleResize s) = targetZoom s"
  by (simp add: handleResize_def Let_def split_def split: option.splits)

lemma dispatch_range:
  "0.5 \<le> targetZoom s \<and> targetZoom s \<le> 5 \<Longrightarrow>
   0.5 \<le> targetZoom (dispatch s ev) \<and> targetZoom (dispatch s ev) \<le> 5"
proof (cases ev)
  case (Wheel d)
  then show ?thesis using handleWheel_range[of d s] by simp
next
  case (TouchMove ts)
  assume "0.5 \<le> targetZoom s \<and> targetZoom s \<le> 5"
  then show ?thesis using TouchMove handleTouchMove_range[of s ts] by simp
qed (simp_all add: animate_targetZoom handleResize_targetZoom handleMouseMove_def
      handleTouchStart_def handleTouchEnd_def Let_def)

lemma run_range:
  "0.5 \<le> targetZoom s \<and> targetZoom s \<le> 5 \<Longrightarrow>
   0.5 \<le> targetZoom (run s evs) \<and> targetZoom (run s evs) \<le> 5"
  unfolding run_def
proof (induction evs arbitrary: s)
  case Nil
  then show ?case by simp
next
  case (Cons ev evs)
  have "0.5 \<le> targetZoom (dispatch s ev) \<and> targetZoom (dispatch s ev) \<le> 5"
    using Cons.prems by (rule dispatch_range)
  then show ?case using Cons.IH[of "dispatch s ev"] by simp
qed

lemma mount_targetZoom: "targetZoom (mount cv ct g) = 1"
  by (simp add: mount_def requestAnimationFrame_def handleResize_targetZoom initialScene_def)

text \<open>
  Claim C7. The mounted scene starts with target zoom 1.0. A wheel event sets the target
  to the old target minus \<open>deltaY * 0.001\<close>, clamped to \<open>[0.5, 5.0]\<close>; a two-finger
  move during a pinch sets it to the old target plus the change of the finger distance
  times 0.008, clamped alike. After any sequence of events (wheel, touch, mouse, resize
  and frames) the target zoom lies in \<open>[0.5, 5.0]\<close>, and a wheel event with
  \<open>deltaY = -100\<close> at target 1.0 yields 1.1.
\<close>

theorem targetZoom_clamped:
  "targetZoom (mount cv ct g) = 1
   \<and> targetZoom (handleWheel deltaY s) = max 0.5 (min 5.0 (targetZoom s + - deltaY * 0.001))
   \<and> targetZoom (handleTouchMove [t1, t2] (s\<lparr>lastTouchDist := Some d0\<rparr>))
       = max 0.5 (min 5.0 (targetZoom s
           + (hypot (fst t1 - fst t2) (snd t1 - snd t2) - d0) * 0.008))
   \<and> 0.5 \<le> targetZoom (run (mount cv ct g) evs)
   \<and> targetZoom (run (mount cv ct g) evs) \<le> 5.0
   \<and> targetZoom (handleWheel (- 100) (mount cv ct g)) = 1.1"
proof -
  have m: "targetZoom (mount cv ct g) = 1"
    by (rule mount_targetZoom)
  have w: "targetZoom (handleWheel deltaY s) = max 0.5 (min 5.0 (targetZoom s + - deltaY * 0.001))"
    by (simp add: handleWheel_def Let_def)
  have p: "targetZoom (handleTouchMove [t1, t2] (s\<lparr>lastTouchDist := Some d0\<rparr>))
       = max 0.5 (min 5.0 (targetZoom s
           + (hypot (fst t1 - fst t2) (snd t1 - snd t2) - d0) * 0.008))"
    by (simp add: handleTouchMove_def Let_def)
  have r: "0.5 \<le> targetZoom (run (mount cv ct g) evs) \<and> targetZoom (run (mount cv ct g) evs) \<le> 5"
    by (rule run_range) (simp add: m)
  have x: "targetZoom (handleWheel (- 100) (mount cv ct g)) = 1.1"
    by (simp add: handleWheel_def Let_def m)
  show ?thesis using m w p r x by simp
qed

subsection \<open>The connection loop\<close>

lemma stepConnection_Remove:
  "(stepConnection e ss c = Remove) = (\<not> keepConn ss (updateLife c))"
  by (auto simp add: stepConnection_def keepConn_def Let_def split: option.splits)

lemma stepConnection_Keep:
  "stepConnection e ss c = Keep c' l r \<Longrightarrow>
     c' = updateLife c \<and> keepConn ss c' \<and> r = [startIdx c', endIdx c']"
  by (auto simp add: stepConnection_def keepConn_def Let_def split: option.splits if_splits)

lemma connLoop_fst:
  "n \<le> length cs \<Longrightarrow>
   fst (connLoop e ss n (cs, ls, ds)) = filter (keepConn ss) (map updateLife (take n cs)) @ drop n cs"
proof (induction n arbitrary: cs ls ds)
  case 0
  then show ?case by simp
next
  case (Suc n)
  then have n: "n < length cs" by simp
  have tk: "take (Suc n) cs = take n cs @ [cs ! n]"
    using n by (simp add: take_Suc_conv_app_nth)
  show ?case
  proof (cases "stepConnection e ss (cs ! n)")
    case Remove
    then have nk: "\<not> keepConn ss (updateLife (cs ! n))"
      by (simp add: stepConnection_Remove)
    have len: "n \<le> length (splice1 cs n)" using n by (simp add: splice1_def)
    have "fst (connLoop e ss (Suc n) (cs, ls, ds)) = fst (connLoop e ss n (splice1 cs n, ls, ds))"
      using Remove by simp
    also have "\<dots> = filter (keepConn ss) (map updateLife (take n (splice1 cs n))) @ drop n (splice1 cs n)"
      using len by (rule Suc.IH)
    also have "take n (splice1 cs n) = take n cs" using n by (simp add: splice1_def)
    also have "drop n (splice1 cs n) = drop (Suc n) cs" using n by (simp add: splice1_def)
    finally show ?thesis using nk by (simp add: tk)
  next
    case (Keep c' l r)
    then have c': "c' = updateLife (cs ! n)" and k: "keepConn ss c'"
      using stepConnection_Keep by blast+
    have len: "n \<le> length (cs[n := c'])" using n by simp
    obtain ls' ds' where eq: "connLoop e ss (Suc n) (cs, ls, ds) = connLoop e ss n (cs[n := c'], ls', ds')"
      using Keep by (cases l) simp_all
    have "fst (connLoop e ss n (cs[n := c'], ls', ds'))
        = filter (keepConn ss) (map updateLife (take n (cs[n := c']))) @ drop n (cs[n := c'])"
      using len by (rule Suc.IH)
    moreover have "drop n (cs[n := c']) = c' # drop (Suc n) cs"
      using n by (simp add: Cons_nth_drop_Suc[symmetric] flip: upd_conv_take_nth_drop)
    ultimately show ?thesis unfolding eq using k c' by (simp add: tk)
  qed
qed

lemma updateConnections_fst:
  "fst (updateConnections e ss cs) = filter (keepConn ss) (map updateLife cs)"
  by (simp add: updateConnections_def connLoop_fst)

lemma connLoop_reads:
  "set (snd (snd (connLoop e ss n (cs, ls, ds)))) \<subseteq> set ds \<union> {i. star_at ss i \<noteq> None}"
proof (induction n arbitrary: cs ls ds)
  case 0
  then show ?case by simp
next
  case (Suc n)
  show ?case
  proof (cases "stepConnection e ss (cs ! n)")
    case Remove
    then show ?thesis using Suc.IH[of "splice1 cs n" ls ds] by simp
  next
    case (Keep c' l r)
    then have k: "keepConn ss c'" and r: "r = [startIdx c', endIdx c']"
      using stepConnection_Keep by blast+
    obtain ls' where eq: "connLoop e ss (Suc n) (cs, ls, ds) = connLoop e ss n (cs[n := c'], ls', ds @ r)"
      using Keep by (cases l) simp_all
    have "set (ds @ r) \<subseteq> set ds \<union> {i. star_at ss i \<noteq> None}"
      using k r by (auto simp: keepConn_def)
    then show ?thesis unfolding eq using Suc.IH[of "cs[n := c']" ls' "ds @ r"] by blast
  qed
qed

lemma star_at_Some_iff: "(star_at ss i \<noteq> None) = (0 \<le> i \<and> i < int (length ss))"
  by (auto simp add: star_at_def)

lemma updateConnections_reads:
  "i \<in> set (snd (snd (updateConnections e ss cs))) \<Longrightarrow> 0 \<le> i \<and> i < int (length ss)"
proof -
  assume "i \<in> set (snd (snd (updateConnections e ss cs)))"
  then have "star_at ss i \<noteq> None"
    using connLoop_reads[of e ss "length cs" cs "[]" "[]"]
    unfolding updateConnections_def by auto
  then show ?thesis by (simp only: star_at_Some_iff)
qed

lemma updateLife_growing:
  "state c = Growing \<Longrightarrow>
     life (updateLife c) = life c + 0.04 \<and> life c < life (updateLife c)
     \<and> state (updateLife c) = (if maxLife c \<le> life c + 0.04 then Holding else Growing)"
  by (simp add: updateLife_def Let_def)

lemma updateLife_holding:
  "state c = Holding \<Longrightarrow>
     life (updateLife c) = life c - 0.005 \<and> life (updateLife c) \<le> life c
     \<and> state (updateLife c) = (if life c - 0.005 < maxLife c * 0.8 then Fading else Holding)"
  by (simp add: updateLife_def Let_def)

lemma updateLife_fading:
  "state c = Fading \<Longrightarrow>
     life (updateLife c) = life c - 0.015 \<and> life (updateLife c) < life c
     \<and> state (updateLife c) = Fading"
  by (simp add: updateLife_def Let_def)

lemma updateLife_rank:
  "stateRank (state c) \<le> stateRank (state (updateLife c))
   \<and> stateRank (state (updateLife c)) \<le> stateRank (state c) + 1"
  by (cases "state c") (simp_all add: updateLife_def Let_def)

lemma updateLife_frame:
  "maxLife (updateLife c) = maxLife c \<and> startIdx (updateLife c) = startIdx c
   \<and> endIdx (updateLife c) = endIdx c"
  by (simp add: updateLife_def Let_def)

lemma funpow_rank: "stateRank (state c) \<le> stateRank (state ((updateLife ^^ n) c))"
proof (induction n)
  case 0
  then show ?case by simp
next
  case (Suc n)
  then show ?case using updateLife_rank[of "(updateLife ^^ n) c"] by simp
qed

lemma growth_ticks:
  "k \<le> 19 \<Longrightarrow> (updateLife ^^ k) (newConnection i j 0.8) = (newConnection i j 0.8)\<lparr>life := 0.04 * real k\<rparr>"
proof (induction k)
  case 0
  then show ?case by (simp add: newConnection_def)
next
  case (Suc k)
  then have "real k \<le> 18" by simp
  then have "0.04 * real k + 0.04 < (0.8::real)" by simp
  then show ?case using Suc
    by (simp add: updateLife_def Let_def newConnection_def algebra_simps)
qed

lemma growth_20: "state ((updateLife ^^ 20) (newConnection i j 0.8)) = Holding"
proof -
  have "(updateLife ^^ 20) (newConnection i j 0.8) = updateLife ((updateLife ^^ 19) (newConnection i j 0.8))"
    by (simp add: eval_nat_numeral)
  also have "\<dots> = updateLife ((newConnection i j 0.8)\<lparr>life := 0.04 * real 19\<rparr>)"
    using growth_ticks[of 19 i j] by simp
  finally show ?thesis
    by (simp add: updateLife_def Let_def newConnection_def)
qed

lemma stepConnection_valid:
  "validConn ss c \<Longrightarrow> (stepConnection e ss c = Remove) = (life (updateLife c) \<le> 0)"
  by (auto simp add: stepConnection_Remove keepConn_def validConn_def updateLife_frame)

text \<open>
  Claim C2. While a connection is growing its life increases by 0.04 per frame and it
  becomes holding exactly when the new life has reached \<open>maxLife\<close>; while holding, the
  life decreases by 0.005 per frame and it becomes fading exactly when the new life is
  below \<open>maxLife * 0.8\<close>; while fading, the life decreases by 0.015 per frame. The state
  only moves forward along growing, holding, fading, by at most one state per frame and
  never back, over any number of frames. A connection whose two indices are valid is
  removed by the loop exactly when its new life is at most 0, and the loop keeps, of
  a list of such connections, exactly those with positive new life. A connection
  created with \<open>maxLife\<close> 0.8 is growing after each of its first 19 frames and holding
  after the 20th.
\<close>

theorem connection_lifecycle:
  "(state c = Growing \<longrightarrow>
      life (updateLife c) = life c + 0.04 \<and> life c < life (updateLife c)
      \<and> state (updateLife c) = (if maxLife c \<le> life (updateLife c) then Holding else Growing))
   \<and> (state c = Holding \<longrightarrow>
      life (updateLife c) = life c - 0.005 \<and> life (updateLife c) \<le> life c
      \<and> state (updateLife c) = (if life (updateLife c) < maxLife c * 0.8 then Fading else Holding))
   \<and> (state c = Fading \<longrightarrow>
      life (updateLife c) = life c - 0.015 \<and> life (updateLife c) < life c
      \<and> state (updateLife c) = Fading)
   \<and> stateRank (state (updateLife c)) \<le> stateRank (state c) + 1
   \<and> stateRank (state c) \<le> stateRank (state ((updateLife ^^ n) c))
   \<and> (validConn ss c \<longrightarrow> (stepConnection e ss c = Remove) = (life (updateLife c) \<le> 0))
   \<and> (list_all (validConn ss) cs \<longrightarrow>
        fst (updateConnections e ss cs) = filter (\<lambda>c'. 0 < life c') (map updateLife cs))
   \<and> (k < 20 \<longrightarrow> state ((updateLife ^^ k) (newConnection i j 0.8)) = Growing)
   \<and> state ((updateLife ^^ 20) (newConnection i j 0.8)) = Holding"
proof -
  have g: "state c = Growing \<longrightarrow>
      life (updateLife c) = life c + 0.04 \<and> life c < life (updateLife c)
      \<and> state (updateLife c) = (if maxLife c \<le> life (updateLife c) then Holding else Growing)"
    using updateLife_growing[of c] by simp
  have h: "state c = Holding \<longrightarrow>
      life (updateLife c) = life c - 0.005 \<and> life (updateLife c) \<le> life c
      \<and> state (updateLife c) = (if life (updateLife c) < maxLife c * 0.8 then Fading else Holding)"
    using updateLife_holding[of c] by simp
  have f: "state c = Fading \<longrightarrow>
      life (updateLife c) = life c - 0.015 \<and> life (updateLife c) < life c
      \<and> state (updateLife c) = Fading"
    using updateLife_fading[of c] by simp
  have r1: "stateRank (state (updateLife c)) \<le> stateRank (state c) + 1"
    using updateLife_rank[of c] by simp
  have r2: "stateRank (state c) \<le> stateRank (state ((updateLife ^^ n) c))"
    by (rule funpow_rank)
  have rm: "validConn ss c \<longrightarrow> (stepConnection e ss c = Remove) = (life (updateLife c) \<le> 0)"
    using stepConnection_valid[of ss c e] by simp
  have fl: "list_all (validConn ss) cs \<longrightarrow>
        fst (updateConnections e ss cs) = filter (\<lambda>c'. 0 < life c') (map updateLife cs)"
  proof
    assume v: "list_all (validConn ss) cs"
    have "filter (keepConn ss) (map updateLife cs) = filter (\<lambda>c'. 0 < life c') (map updateLife cs)"
      using v by (intro filter_cong refl)
        (auto simp add: keepConn_def validConn_def updateLife_frame list_all_iff)
    then show "fst (updateConnections e ss cs) = filter (\<lambda>c'. 0 < life c') (map updateLife cs)"
      by (simp add: updateConnections_fst)
  qed
  have t1: "k < 20 \<longrightarrow> state ((updateLife ^^ k) (newConnection i j 0.8)) = Growing"
  proof
    assume "k < 20"
    then have "k \<le> 19" by simp
    then have "(updateLife ^^ k) (newConnection i j 0.8) = (newConnection i j 0.8)\<lparr>life := 0.04 * real k\<rparr>"
      by (rule growth_ticks)
    then show "state ((updateLife ^^ k) (newConnection i j 0.8)) = Growing"
      by (simp add: newConnection_def)
  qed
  have t2: "state ((updateLife ^^ 20) (newConnection i j 0.8)) = Holding"
    by (rule growth_20)
  show ?thesis using g h f r1 r2 rm fl t1 t2 by blast
qed

theorem connection_lifecycle_witness:
  "state (updateLife ((newConnection 0 1 0.8)\<lparr>life := 0.76\<rparr>)) = Holding
   \<and> life (updateLife ((newConnection 0 1 0.8)\<lparr>life := 0.76\<rparr>)) = 0.8
   \<and> state (updateLife ((newConnection 0 1 0.8)\<lparr>life := 0.64, state := Holding\<rparr>)) = Fading
   \<and> life (updateLife ((newConnection 0 1 0.8)\<lparr>life := 0.01, state := Fading\<rparr>)) = - 0.005
   \<and> stepConnection exampleEnv [exampleStar 0 0 1, exampleStar 10 0 1]
        ((newConnection 0 1 0.8)\<lparr>life := 0.01, state := Fading\<rparr>) = Remove
   \<and> fst (updateConnections exampleEnv [exampleStar 0 0 1, exampleStar 10 0 1]
        [(newConnection 0 1 0.8)\<lparr>life := 0.01, state := Fading\<rparr>, newConnection 1 0 0.8])
       = [(newConnection 1 0 0.8)\<lparr>life := 0.04\<rparr>]
   \<and> state ((updateLife ^^ 19) (newConnection 0 1 0.8)) = Growing"
  using connection_lifecycle[of "(newConnection 0 1 0.8)\<lparr>life := 0.76\<rparr>" 1
      "[exampleStar 0 0 1, exampleStar 10 0 1]" exampleEnv
      "[(newConnection 0 1 0.8)\<lparr>life := 0.01, state := Fading\<rparr>, newConnection 1 0 0.8]" 19 0 1]
    connection_lifecycle[of "(newConnection 0 1 0.8)\<lparr>life := 0.64, state := Holding\<rparr>" 1
      "[exampleStar 0 0 1, exampleStar 10 0 1]" exampleEnv "[]" 0 0 1]
    connection_lifecycle[of "(newConnection 0 1 0.8)\<lparr>life := 0.01, state := Fading\<rparr>" 1
      "[exampleStar 0 0 1, exampleStar 10 0 1]" exampleEnv "[]" 0 0 1]
  by (simp add: newConnection_def validConn_def star_at_def updateLife_def Let_def)


subsection \<open>Stale indices and resize\<close>

lemma length_driftStars: "length (fst (driftStars w h g k ss)) = length ss"
  by (induction ss arbitrary: k) (simp_all add: split_def Let_def)

lemma validConn_iff:
  "validConn ss c = (0 \<le> startIdx c \<and> startIdx c < int (length ss)
     \<and> 0 \<le> endIdx c \<and> endIdx c < int (length ss))"
  unfolding validConn_def star_at_Some_iff by blast

lemma validConn_length: "length ss = length ss' \<Longrightarrow> validConn ss' c = validConn ss c"
  by (simp add: validConn_iff)

lemma keepConn_validConn: "keepConn ss c \<Longrightarrow> validConn ss c"
  by (simp add: keepConn_def validConn_def)

lemma animateFrame_stars_length: "length (stars (fst (animateFrame t cv s))) = length (stars s)"
  by (simp add: animateFrame_def Let_def split_def requestAnimationFrame_def length_driftStars)

lemma animateFrame_connections:
  "connections (fst (animateFrame t cv s)) =
     filter (keepConn (fst (driftStars (cwidth cv) (cheight cv) (rnd s) (rpos s) (stars s))))
       (map updateLife (fst (spawnConnection
          (fst (driftStars (cwidth cv) (cheight cv) (rnd s) (rpos s) (stars s))) (rnd s)
          (snd (driftStars (cwidth cv) (cheight cv) (rnd s) (rpos s) (stars s))) (connections s))))"
  by (simp add: animateFrame_def Let_def split_def requestAnimationFrame_def updateConnections_fst)

lemma animateFrame_connsValid: "connsValid (fst (animateFrame t cv s))"
proof -
  let ?ss1 = "fst (driftStars (cwidth cv) (cheight cv) (rnd s) (rpos s) (stars s))"
  have len: "length ?ss1 = length (stars (fst (animateFrame t cv s)))"
    by (simp add: animateFrame_stars_length length_driftStars)
  have "list_all (validConn ?ss1) (connections (fst (animateFrame t cv s)))"
    by (simp add: animateFrame_connections list_all_iff keepConn_validConn)
  then show ?thesis
    unfolding connsValid_def list_all_iff using validConn_length[OF len] by blast
qed

lemma animateFrame_reads:
  "i \<in> set (snd (snd (animateFrame t cv s))) \<Longrightarrow> 0 \<le> i \<and> i < int (length (stars s))"
proof -
  assume "i \<in> set (snd (snd (animateFrame t cv s)))"
  then have "i \<in> set (snd (snd (updateConnections (frameEnv t cv s)
       (fst (driftStars (cwidth cv) (cheight cv) (rnd s) (rpos s) (stars s)))
       (fst (spawnConnection
          (fst (driftStars (cwidth cv) (cheight cv) (rnd s) (rpos s) (stars s))) (rnd s)
          (snd (driftStars (cwidth cv) (cheight cv) (rnd s) (rpos s) (stars s))) (connections s))))))"
    by (simp add: animateFrame_def Let_def split_def)
  then show ?thesis
    using updateConnections_reads length_driftStars by metis
qed

lemma handleResize_connections:
  "canvas s = Some cv \<Longrightarrow> container s = Some ct \<Longrightarrow> connections (handleResize s) = []"
  by (simp add: handleResize_def Let_def split_def)

lemma handleResize_connsValid: "connsValid s \<Longrightarrow> connsValid (handleResize s)"
  by (simp add: handleResize_def Let_def split_def connsValid_def split: option.splits)

lemma animate_connsValid: "connsValid s \<Longrightarrow> connsValid (animate t s)"
  by (simp add: animate_def animateFrame_connsValid split: option.splits)

lemma dispatch_connsValid: "connsValid s \<Longrightarrow> connsValid (dispatch s ev)"
proof (cases ev)
  case (Resize w h)
  assume "connsValid s"
  then have "connsValid (s\<lparr>container := map_option (\<lambda>_. (w, h)) (container s)\<rparr>)"
    by (simp add: connsValid_def)
  then show ?thesis using Resize by (simp add: handleResize_connsValid)
next
  case (Frame t)
  assume "connsValid s"
  then have "connsValid (s\<lparr>frameScheduled := False\<rparr>)"
    by (simp add: connsValid_def)
  then show ?thesis using Frame \<open>connsValid s\<close> by (simp add: animate_connsValid)
qed (simp_all add: connsValid_def handleMouseMove_def handleWheel_def handleTouchStart_def
       handleTouchMove_def handleTouchEnd_def Let_def split: option.splits)

lemma run_connsValid: "connsValid s \<Longrightarrow> connsValid (run s evs)"
  unfolding run_def
  by (induction evs arbitrary: s) (simp_all add: dispatch_connsValid)

lemma stepConnection_stale: "\<not> validConn ss c \<Longrightarrow> stepConnection e ss c = Remove"
  by (simp add: stepConnection_Remove keepConn_def validConn_def updateLife_frame)

lemma dispatch_Resize_connections:
  "canvas s = Some cv \<Longrightarrow> container s = Some ct \<Longrightarrow> connections (dispatch s (Resize w h)) = []"
  by (simp add: handleResize_def Let_def split_def)

lemma animateFrame_empty:
  "stars s = [] \<Longrightarrow> connections s = [] \<Longrightarrow>
     stars (fst (animateFrame t cv s)) = [] \<and> connections (fst (animateFrame t cv s)) = []"
  by (simp add: animateFrame_def Let_def split_def requestAnimationFrame_def
      spawnConnection_def updateConnections_def)

lemma animateFrame_refs:
  "canvas (fst (animateFrame t cv s)) = canvas s \<and> container (fst (animateFrame t cv s)) = container s"
  by (simp add: animateFrame_def Let_def split_def requestAnimationFrame_def)

lemma animate_refsInv: "refsInv s \<Longrightarrow> refsInv (animate t s)"
  by (auto simp add: animate_def refsInv_def animateFrame_refs animateFrame_empty split: option.splits)

lemma handleResize_refsInv: "refsInv s \<Longrightarrow> refsInv (handleResize s)"
  by (auto simp add: handleResize_def refsInv_def Let_def split_def split: option.splits)

lemma dispatch_refsInv: "refsInv s \<Longrightarrow> refsInv (dispatch s ev)"
proof (cases ev)
  case (Resize w h)
  assume "refsInv s"
  then have "refsInv (s\<lparr>container := map_option (\<lambda>_. (w, h)) (container s)\<rparr>)"
    by (simp add: refsInv_def)
  then show ?thesis using Resize by (simp add: handleResize_refsInv)
next
  case (Frame t)
  assume "refsInv s"
  then have "refsInv (s\<lparr>frameScheduled := False\<rparr>)"
    by (simp add: refsInv_def)
  then show ?thesis using Frame \<open>refsInv s\<close> by (simp add: animate_refsInv)
qed (simp_all add: refsInv_def handleMouseMove_def handleWheel_def handleTouchStart_def
       handleTouchMove_def handleTouchEnd_def Let_def split: option.splits)

lemma run_refsInv: "refsInv s \<Longrightarrow> refsInv (run s evs)"
  unfolding run_def
  by (induction evs arbitrary: s) (simp_all add: dispatch_refsInv)

lemma mount_connections: "connections (mount cv ct g) = []"
  by (simp add: mount_def requestAnimationFrame_def handleResize_def initialScene_def
      Let_def split_def split: option.splits)

lemma mount_refsInv: "refsInv (mount cv ct g)"
  by (simp add: refsInv_def mount_connections)
    (simp add: mount_def requestAnimationFrame_def handleResize_def initialScene_def
      Let_def split_def split: option.splits)

lemma mount_connsValid: "connsValid (mount cv ct g)"
  by (simp add: connsValid_def mount_connections)

lemma resize_clears: "refsInv s \<Longrightarrow> connections (dispatch s (Resize w h)) = []"
  by (auto simp add: refsInv_def handleResize_def Let_def split_def split: option.splits)

lemma exampleScene_frame:
  "snd (snd (animateFrame 0 exampleCanvas exampleScene)) = [0, 1]
   \<and> connections (fst (animateFrame 0 exampleCanvas exampleScene)) = [(newConnection 0 1 0.8)\<lparr>life := 0.04\<rparr>]"
  by (simp add: animateFrame_def exampleScene_def exampleCanvas_def initialScene_def Let_def
      split_def driftStar_def driftSpeed_def spawnConnection_def exampleStar_def
      updateConnections_def stepConnection_def updateLife_def newConnection_def star_at_def
      frameEnv_def requestAnimationFrame_def splice1_def eval_nat_numeral)

text \<open>
  Claim C1. After every resize event, in any state reached from the mounted scene, the
  connection list is empty (and a resize with canvas and container present empties any
  list). In every frame the connection loop reads the fields of stars at indices below
  the star count only: a connection one of whose indices is not an index of the stars
  array is removed without a read, every connection the loop keeps has two valid
  indices, and so has every connection of every state reached from the mounted scene.
\<close>

theorem resize_clears_connections:
  "connections (dispatch (run (mount cv ct g) evs) (Resize w h)) = []
   \<and> (canvas s = Some cv' \<and> container s = Some ct' \<longrightarrow>
        connections (handleResize s) = [] \<and> connections (dispatch s (Resize w h)) = [])
   \<and> (\<forall>i \<in> set (snd (snd (animateFrame t cv' s))).
        0 \<le> i \<and> i < int (length (stars (fst (animateFrame t cv' s)))))
   \<and> (\<forall>i \<in> set (snd (snd (updateConnections e ss cs))). 0 \<le> i \<and> i < int (length ss))
   \<and> (\<not> validConn ss c \<longrightarrow> stepConnection e ss c = Remove)
   \<and> list_all (validConn ss) (fst (updateConnections e ss cs))
   \<and> connsValid (fst (animateFrame t cv' s))
   \<and> connsValid (run (mount cv ct g) evs)"
proof -
  have a: "connections (dispatch (run (mount cv ct g) evs) (Resize w h)) = []"
    by (rule resize_clears) (rule run_refsInv, rule mount_refsInv)
  have b: "canvas s = Some cv' \<and> container s = Some ct' \<longrightarrow>
        connections (handleResize s) = [] \<and> connections (dispatch s (Resize w h)) = []"
    using handleResize_connections dispatch_Resize_connections by blast
  have c: "\<forall>i \<in> set (snd (snd (animateFrame t cv' s))).
        0 \<le> i \<and> i < int (length (stars (fst (animateFrame t cv' s))))"
    using animateFrame_reads by (simp add: animateFrame_stars_length)
  have d: "\<forall>i \<in> set (snd (snd (updateConnections e ss cs))). 0 \<le> i \<and> i < int (length ss)"
    using updateConnections_reads by blast
  have f: "\<not> validConn ss c \<longrightarrow> stepConnection e ss c = Remove"
    using stepConnection_stale by blast
  have h: "list_all (validConn ss) (fst (updateConnections e ss cs))"
    by (simp add: updateConnections_fst list_all_iff keepConn_validConn)
  have i: "connsValid (fst (animateFrame t cv' s))"
    by (rule animateFrame_connsValid)
  have j: "connsValid (run (mount cv ct g) evs)"
    by (rule run_connsValid) (rule mount_connsValid)
  show ?thesis using a b c d f h i j by blast
qed

theorem resize_clears_connections_witness:
  "canvas exampleScene = Some exampleCanvas \<and> container exampleScene = Some (800, 600)
   \<and> connections exampleScene \<noteq> [] \<and> connections (handleResize exampleScene) = []
   \<and> snd (snd (animateFrame 0 exampleCanvas exampleScene)) = [0, 1]
   \<and> 1 < int (length (stars (fst (animateFrame 0 exampleCanvas exampleScene))))
   \<and> \<not> validConn (stars exampleScene) (newConnection 0 7 0.8)
   \<and> stepConnection exampleEnv (stars exampleScene) (newConnection 0 7 0.8) = Remove"
  using resize_clears_connections[where s = exampleScene and cv' = exampleCanvas
      and ct' = "(800, 600)" and t = 0 and ss = "stars exampleScene"
      and c = "newConnection 0 7 0.8" and e = exampleEnv]
    exampleScene_frame
  by (simp add: exampleScene_def initialScene_def validConn_def star_at_def newConnection_def)

subsection \<open>Frames without a canvas or a drawing context\<close>

lemma surfaceUnavailable_handleResize:
  "surfaceUnavailable s \<Longrightarrow> surfaceUnavailable (handleResize s)"
  by (auto simp add: surfaceUnavailable_def handleResize_def Let_def split_def split: option.splits)

lemma animate_unavailable: "surfaceUnavailable s \<Longrightarrow> animate t s = s"
  by (simp add: surfaceUnavailable_def animate_def split: option.splits)

lemma animate_available:
  "\<not> surfaceUnavailable s \<Longrightarrow> frameScheduled (animate t s) \<and> requestRef (animate t s) = requestRef s + 1"
  by (auto simp add: surfaceUnavailable_def animate_def animateFrame_def Let_def split_def
      requestAnimationFrame_def split: option.splits)

lemma dispatch_Frame_unavailable:
  "surfaceUnavailable s \<Longrightarrow> dispatch s (Frame t) = s\<lparr>frameScheduled := False\<rparr>"
proof -
  assume u: "surfaceUnavailable s"
  then have "surfaceUnavailable (s\<lparr>frameScheduled := False\<rparr>)"
    by (simp add: surfaceUnavailable_def)
  then have "animate t (s\<lparr>frameScheduled := False\<rparr>) = s\<lparr>frameScheduled := False\<rparr>"
    by (rule animate_unavailable)
  then show ?thesis by simp
qed

lemma run_Frames_idle: "\<not> frameScheduled s \<Longrightarrow> run s (map Frame ts) = s"
  unfolding run_def by (induction ts) simp_all

text \<open>
  Claim C3, as the code has it. A frame callback that runs without a canvas or without
  a drawing context returns at once: the scene is unchanged, nothing is raised, and no
  further frame is requested, so the frame loop stops there and later ticks find no
  pending callback. A frame that runs with both available requests the next frame.
\<close>

theorem animate_without_surface:
  "(surfaceUnavailable s \<longrightarrow>
      animate t s = s
      \<and> dispatch s (Frame t) = s\<lparr>frameScheduled := False\<rparr>
      \<and> run (dispatch s (Frame t)) (map Frame ts) = s\<lparr>frameScheduled := False\<rparr>)
   \<and> (\<not> surfaceUnavailable s \<longrightarrow> frameScheduled (animate t s))"
proof -
  have a: "surfaceUnavailable s \<longrightarrow> animate t s = s"
    using animate_unavailable by blast
  have b: "surfaceUnavailable s \<longrightarrow> dispatch s (Frame t) = s\<lparr>frameScheduled := False\<rparr>"
    using dispatch_Frame_unavailable by blast
  have c: "surfaceUnavailable s \<longrightarrow>
      run (dispatch s (Frame t)) (map Frame ts) = s\<lparr>frameScheduled := False\<rparr>"
  proof
    assume u: "surfaceUnavailable s"
    have "run (s\<lparr>frameScheduled := False\<rparr>) (map Frame ts) = s\<lparr>frameScheduled := False\<rparr>"
      by (rule run_Frames_idle) simp
    then show "run (dispatch s (Frame t)) (map Frame ts) = s\<lparr>frameScheduled := False\<rparr>"
      unfolding dispatch_Frame_unavailable[OF u] .
  qed
  have d: "\<not> surfaceUnavailable s \<longrightarrow> frameScheduled (animate t s)"
    using animate_available by blast
  show ?thesis using a b c d by blast
qed

theorem animate_without_surface_witness:
  "surfaceUnavailable (initialScene (Some noContextCanvas) (Some (800, 600)) (\<lambda>n. 0))
   \<and> animate 0 (initialScene (Some noContextCanvas) (Some (800, 600)) (\<lambda>n. 0))
       = initialScene (Some noContextCanvas) (Some (800, 600)) (\<lambda>n. 0)
   \<and> \<not> surfaceUnavailable exampleScene
   \<and> frameScheduled (animate 0 exampleScene)"
  using animate_without_surface[of "initialScene (Some noContextCanvas) (Some (800, 600)) (\<lambda>n. 0)" 0 "[]"]
    animate_without_surface[of exampleScene 0 "[]"]
  by (simp add: surfaceUnavailable_def initialScene_def noContextCanvas_def exampleScene_def
      exampleCanvas_def)

text \<open>
  The claim as the specification states it (the frame is retried on the next tick) fails
  when the canvas yields no drawing context: the first frame consumes the request made
  on mount and requests none, and no later tick runs a frame.
\<close>

theorem frame_not_rescheduled:
  "frameScheduled (mount (Some noContextCanvas) (Some (800, 600)) (\<lambda>n. 0))
   \<and> \<not> frameScheduled
       (dispatch (mount (Some noContextCanvas) (Some (800, 600)) (\<lambda>n. 0)) (Frame 0))
   \<and> \<not> frameScheduled
       (run (mount (Some noContextCanvas) (Some (800, 600)) (\<lambda>n. 0)) [Frame 0, Frame 16, Frame 33])"
proof -
  let ?m = "mount (Some noContextCanvas) (Some (800, 600)) (\<lambda>n. 0)"
  have u0: "surfaceUnavailable (initialScene (Some noContextCanvas) (Some (800, 600)) (\<lambda>n. 0))"
    by (simp add: surfaceUnavailable_def initialScene_def noContextCanvas_def)
  have "surfaceUnavailable (handleResize (initialScene (Some noContextCanvas) (Some (800, 600)) (\<lambda>n. 0)))"
    using u0 by (rule surfaceUnavailable_handleResize)
  then have u: "surfaceUnavailable ?m"
    by (simp add: mount_def requestAnimationFrame_def surfaceUnavailable_def)
  have s: "frameScheduled ?m"
    by (simp add: mount_def requestAnimationFrame_def)
  have d: "dispatch ?m (Frame 0) = ?m\<lparr>frameScheduled := False\<rparr>"
    using u by (rule dispatch_Frame_unavailable)
  have "run ?m [Frame 0, Frame 16, Frame 33] = run (dispatch ?m (Frame 0)) (map Frame [16, 33])"
    by (simp add: run_def)
  also have "\<dots> = ?m\<lparr>frameScheduled := False\<rparr>"
    unfolding d by (rule run_Frames_idle) simp
  finally show ?thesis using s d by simp
qed


subsection \<open>The depth of the stars\<close>

lemma genStar_z: "star_z (fst (genStar w h g k)) = g k * 3.8 + 0.2"
  by (simp add: genStar_def Let_def)

lemma genStar_z_range:
  "validRandom g \<Longrightarrow> 0.2 \<le> star_z (fst (genStar w h g k)) \<and> star_z (fst (genStar w h g k)) < 4.0"
proof -
  assume "validRandom g"
  then have "0 \<le> g k" "g k < 1" by (simp_all add: validRandom_def)
  then show ?thesis by (simp add: genStar_z)
qed

lemma initStarsLoop_z:
  "validRandom g \<Longrightarrow> st \<in> set (fst (initStarsLoop w h g k n)) \<Longrightarrow>
     0.2 \<le> star_z st \<and> star_z st < 4.0"
proof (induction n arbitrary: k)
  case 0
  then show ?case by simp
next
  case (Suc n)
  from Suc.prems(2) have "st = fst (genStar w h g k)
      \<or> st \<in> set (fst (initStarsLoop w h g (snd (genStar w h g k)) n))"
    by (simp add: split_def Let_def)
  then show ?case
    using genStar_z_range[OF Suc.prems(1)] Suc.IH[OF Suc.prems(1)] by blast
qed

lemma initStars_z:
  "validRandom g \<Longrightarrow> st \<in> set (fst (initStars w h g k)) \<Longrightarrow>
     0.2 \<le> star_z st \<and> star_z st < 4.0"
  unfolding initStars_def by (rule initStarsLoop_z)

lemma driftStar_recycle:
  "star_z st - 0.002 \<le> 0.2 \<Longrightarrow>
     driftStar w h g k st =
       (st\<lparr>star_x := (g k - 0.5) * w * (1.5 * 4.0), star_y := (g (k + 1) - 0.5) * h * (1.5 * 4.0),
           star_z := 4.0, opacity := 0\<rparr>, k + 2)"
  by (simp add: driftStar_def driftSpeed_def Let_def)

lemma driftStar_advance:
  "0.2 < star_z st - 0.002 \<Longrightarrow> driftStar w h g k st = (st\<lparr>star_z := star_z st - 0.002\<rparr>, k)"
  by (simp add: driftStar_def driftSpeed_def Let_def)

lemma driftStar_z:
  "star_z st \<le> 4.0 \<Longrightarrow>
     0.2 < star_z (fst (driftStar w h g k st)) \<and> star_z (fst (driftStar w h g k st)) \<le> 4.0"
  by (simp add: driftStar_def driftSpeed_def Let_def)

lemma driftStars_z:
  "\<forall>st \<in> set ss. star_z st \<le> 4.0 \<Longrightarrow> st' \<in> set (fst (driftStars w h g k ss)) \<Longrightarrow>
     0.2 < star_z st' \<and> star_z st' \<le> 4.0"
proof (induction ss arbitrary: k)
  case Nil
  then show ?case by simp
next
  case (Cons a ss)
  from Cons.prems(2) have "st' = fst (driftStar w h g k a)
      \<or> st' \<in> set (fst (driftStars w h g (snd (driftStar w h g k a)) ss))"
    by (simp add: split_def Let_def)
  then show ?case
    using driftStar_z[of a w h g k] Cons.IH Cons.prems(1) by auto
qed

lemma twinkle_z: "star_z (twinkle st) = star_z st"
  by (simp add: twinkle_def Let_def)

lemma animateFrame_stars:
  "stars (fst (animateFrame t cv s)) =
     map twinkle (fst (driftStars (cwidth cv) (cheight cv) (rnd s) (rpos s) (stars s)))"
  by (simp add: animateFrame_def Let_def split_def requestAnimationFrame_def)

lemma animateFrame_z:
  "\<forall>st \<in> set (stars s). star_z st \<le> 4.0 \<Longrightarrow> st' \<in> set (stars (fst (animateFrame t cv s))) \<Longrightarrow>
     0.2 < star_z st' \<and> star_z st' \<le> 4.0"
  using driftStars_z[of "stars s"] by (auto simp add: animateFrame_stars twinkle_z)

lemma animateFrame_rnd: "rnd (fst (animateFrame t cv s)) = rnd s"
  by (simp add: animateFrame_def Let_def split_def requestAnimationFrame_def)

lemma animate_depthsOk: "depthsOk s \<Longrightarrow> depthsOk (animate t s)"
proof -
  assume d: "depthsOk s"
  then have le: "\<forall>st \<in> set (stars s). star_z st \<le> 4.0"
    by (simp add: depthsOk_def list_all_iff)
  have "depthsOk (fst (animateFrame t cv s))" for cv
    using d animateFrame_z[OF le, of _ t cv]
    by (fastforce simp add: depthsOk_def list_all_iff animateFrame_rnd)
  then show ?thesis using d by (simp add: animate_def split: option.splits)
qed

lemma handleResize_depthsOk: "depthsOk s \<Longrightarrow> depthsOk (handleResize s)"
proof -
  assume d: "depthsOk s"
  then have v: "validRandom (rnd s)" by (simp add: depthsOk_def)
  show ?thesis
  proof (cases "canvas s")
    case None
    then show ?thesis using d by (simp add: handleResize_def)
  next
    case (Some cv)
    show ?thesis
    proof (cases "container s")
      case None
      then show ?thesis using d Some by (simp add: handleResize_def)
    next
      case (Some ct)
      obtain cw ch where ct: "ct = (cw, ch)" by (cases ct)
      have st: "stars (handleResize s) = fst (initStars cw ch (rnd s) (rpos s))"
        using \<open>canvas s = Some cv\<close> Some ct by (simp add: handleResize_def Let_def split_def)
      have r: "rnd (handleResize s) = rnd s"
        using \<open>canvas s = Some cv\<close> Some ct by (simp add: handleResize_def Let_def split_def)
      show ?thesis
        using v initStars_z[OF v, of _ cw ch "rpos s"]
        by (fastforce simp add: depthsOk_def st r list_all_iff)
    qed
  qed
qed

lemma dispatch_depthsOk: "depthsOk s \<Longrightarrow> depthsOk (dispatch s ev)"
proof (cases ev)
  case (Resize w h)
  assume "depthsOk s"
  then have "depthsOk (s\<lparr>container := map_option (\<lambda>_. (w, h)) (container s)\<rparr>)"
    by (simp add: depthsOk_def)
  then show ?thesis using Resize by (simp add: handleResize_depthsOk)
next
  case (Frame t)
  assume "depthsOk s"
  then have "depthsOk (s\<lparr>frameScheduled := False\<rparr>)"
    by (simp add: depthsOk_def)
  then show ?thesis using Frame \<open>depthsOk s\<close> by (simp add: animate_depthsOk)
qed (simp_all add: depthsOk_def handleMouseMove_def handleWheel_def handleTouchStart_def
       handleTouchMove_def handleTouchEnd_def Let_def split: option.splits)

lemma run_depthsOk: "depthsOk s \<Longrightarrow> depthsOk (run s evs)"
  unfolding run_def
  by (induction evs arbitrary: s) (simp_all add: dispatch_depthsOk)

lemma mount_depthsOk: "validRandom g \<Longrightarrow> depthsOk (mount cv ct g)"
proof -
  assume v: "validRandom g"
  have "depthsOk (initialScene cv ct g)"
    using v by (simp add: depthsOk_def initialScene_def)
  then have "depthsOk (handleResize (initialScene cv ct g))"
    by (rule handleResize_depthsOk)
  then show ?thesis by (simp add: mount_def requestAnimationFrame_def depthsOk_def)
qed

lemma initStars_hd:
  "fst (genStar 800 600 g 0) \<in> set (fst (initStars 800 600 g 0))
   \<and> hd (fst (initStars 800 600 g 0)) = fst (genStar 800 600 g 0)"
proof -
  have n: "nat (starCount 800 600) = Suc 1370"
    by (simp add: starCount_def Let_def)
  have "fst (initStarsLoop 800 600 g 0 (Suc 1370))
      = fst (genStar 800 600 g 0) # fst (initStarsLoop 800 600 g (snd (genStar 800 600 g 0)) 1370)"
    by (simp only: initStarsLoop.simps split_def Let_def fst_conv)
  then show ?thesis
    unfolding initStars_def n by simp
qed

text \<open>
  Claim C5, as the code has it. With a well-formed random source, every star that
  \<open>initStars\<close> generates has its depth in \<open>[0.2, 4.0)\<close>, and in every state reached
  from the mounted scene every depth lies in \<open>[0.2, 4.0]\<close>. After the per-frame drift
  of a star whose depth was at most 4.0 the depth lies in \<open>(0.2, 4.0]\<close>, for one star
  and for all the stars of a frame. When the decrement by 0.002 takes the depth to 0.2
  or below, the star is reset to depth exactly 4.0, with opacity 0 and the position
  \<open>((r1 - 0.5) * w * 6, (r2 - 0.5) * h * 6)\<close> for the next two random draws; otherwise
  only the depth changes.
\<close>

theorem star_depth_range:
  "(validRandom g \<longrightarrow>
      (\<forall>st' \<in> set (fst (initStars w h g k)). 0.2 \<le> star_z st' \<and> star_z st' < 4.0))
   \<and> (validRandom g \<longrightarrow>
      (\<forall>st' \<in> set (stars (run (mount cv ct g) evs)). 0.2 \<le> star_z st' \<and> star_z st' \<le> 4.0))
   \<and> (star_z st \<le> 4.0 \<longrightarrow>
      0.2 < star_z (fst (driftStar w h g k st)) \<and> star_z (fst (driftStar w h g k st)) \<le> 4.0)
   \<and> ((\<forall>st' \<in> set (stars s). star_z st' \<le> 4.0) \<longrightarrow>
      (\<forall>st' \<in> set (stars (fst (animateFrame t cv' s))). 0.2 < star_z st' \<and> star_z st' \<le> 4.0))
   \<and> (star_z st - 0.002 \<le> 0.2 \<longrightarrow>
      driftStar w h g k st =
        (st\<lparr>star_x := (g k - 0.5) * w * (1.5 * 4.0),
            star_y := (g (k + 1) - 0.5) * h * (1.5 * 4.0),
            star_z := 4.0, opacity := 0\<rparr>, k + 2))
   \<and> (0.2 < star_z st - 0.002 \<longrightarrow>
      driftStar w h g k st = (st\<lparr>star_z := star_z st - 0.002\<rparr>, k))"
proof -
  have a: "validRandom g \<longrightarrow>
      (\<forall>st' \<in> set (fst (initStars w h g k)). 0.2 \<le> star_z st' \<and> star_z st' < 4.0)"
    using initStars_z by blast
  have b: "validRandom g \<longrightarrow>
      (\<forall>st' \<in> set (stars (run (mount cv ct g) evs)). 0.2 \<le> star_z st' \<and> star_z st' \<le> 4.0)"
  proof
    assume "validRandom g"
    then have "depthsOk (run (mount cv ct g) evs)"
      by (intro run_depthsOk mount_depthsOk)
    then show "\<forall>st' \<in> set (stars (run (mount cv ct g) evs)). 0.2 \<le> star_z st' \<and> star_z st' \<le> 4.0"
      by (simp add: depthsOk_def list_all_iff)
  qed
  have c: "star_z st \<le> 4.0 \<longrightarrow>
      0.2 < star_z (fst (driftStar w h g k st)) \<and> star_z (fst (driftStar w h g k st)) \<le> 4.0"
    using driftStar_z by blast
  have d: "(\<forall>st' \<in> set (stars s). star_z st' \<le> 4.0) \<longrightarrow>
      (\<forall>st' \<in> set (stars (fst (animateFrame t cv' s))). 0.2 < star_z st' \<and> star_z st' \<le> 4.0)"
    using animateFrame_z by blast
  have e: "star_z st - 0.002 \<le> 0.2 \<longrightarrow>
      driftStar w h g k st =
        (st\<lparr>star_x := (g k - 0.5) * w * (1.5 * 4.0),
            star_y := (g (k + 1) - 0.5) * h * (1.5 * 4.0),
            star_z := 4.0, opacity := 0\<rparr>, k + 2)"
    using driftStar_recycle by blast
  have f: "0.2 < star_z st - 0.002 \<longrightarrow>
      driftStar w h g k st = (st\<lparr>star_z := star_z st - 0.002\<rparr>, k)"
    using driftStar_advance by blast
  show ?thesis using a b c d e f by blast
qed

theorem star_depth_range_witness:
  "validRandom (\<lambda>n. 1 / 2)
   \<and> hd (fst (initStars 800 600 (\<lambda>n. 1 / 2) 0)) \<in> set (fst (initStars 800 600 (\<lambda>n. 1 / 2) 0))
   \<and> star_z (hd (fst (initStars 800 600 (\<lambda>n. 1 / 2) 0))) = 2.1
   \<and> star_z (hd (fst (initStars 800 600 (\<lambda>n. 1 / 2) 0))) < 4.0
   \<and> driftStar 800 600 (\<lambda>n. 1 / 2) 0 (exampleStar 5 5 0.201)
       = ((exampleStar 0 0 4.0)\<lparr>opacity := 0\<rparr>, 2)
   \<and> driftStar 800 600 (\<lambda>n. 1 / 2) 0 (exampleStar 5 5 1) = (exampleStar 5 5 0.998, 0)
   \<and> star_z (hd (stars (fst (animateFrame 0 exampleCanvas exampleScene)))) = 0.998"
  using star_depth_range[where g = "\<lambda>n. 1 / 2" and w = 800 and h = 600 and k = 0
      and st = "exampleStar 5 5 0.201" and s = exampleScene and t = 0 and cv' = exampleCanvas]
    star_depth_range[where g = "\<lambda>n. 1 / 2" and w = 800 and h = 600 and k = 0
      and st = "exampleStar 5 5 1" and s = exampleScene and t = 0 and cv' = exampleCanvas]
    initStars_hd[of "\<lambda>n. 1 / 2"]
  by (simp add: validRandom_def exampleStar_def genStar_z animateFrame_stars exampleScene_def
      exampleCanvas_def initialScene_def split_def Let_def driftStar_def driftSpeed_def twinkle_z)

text \<open>
  The open lower bound of the claim fails right after generation: when the first draw
  of the random source is 0, the first star has depth exactly 0.2.
\<close>

theorem star_generated_at_near_plane:
  "validRandom (\<lambda>n. 0)
   \<and> hd (fst (initStars 800 600 (\<lambda>n. 0) 0)) \<in> set (fst (initStars 800 600 (\<lambda>n. 0) 0))
   \<and> star_z (hd (fst (initStars 800 600 (\<lambda>n. 0) 0))) = 0.2
   \<and> \<not> 0.2 < star_z (hd (fst (initStars 800 600 (\<lambda>n. 0) 0)))"
  using initStars_hd[of "\<lambda>n. 0"]
  by (simp add: validRandom_def genStar_z)

subsection \<open>The twinkle of the stars\<close>

lemma twinkle_cycle:
  assumes "opacity st < 0.2" and "opacity st + twinkleSpeed st < 0.2"
  shows "twinkle (twinkle st) = st \<and> opacity (twinkle st) = opacity st + twinkleSpeed st"
  using assms by (simp add: twinkle_def Let_def)

lemma twinkle_stuck_even:
  assumes "opacity st < 0.2" and "opacity st + twinkleSpeed st < 0.2"
  shows "(twinkle ^^ (2 * n)) st = st"
proof (induction n)
  case 0
  then show ?case by simp
next
  case (Suc n)
  have "(twinkle ^^ (2 * Suc n)) st = twinkle (twinkle ((twinkle ^^ (2 * n)) st))"
    by simp
  then show ?case using Suc twinkle_cycle[OF assms] by simp
qed

lemma twinkle_stuck_odd:
  assumes "opacity st < 0.2" and "opacity st + twinkleSpeed st < 0.2"
  shows "(twinkle ^^ (2 * n + 1)) st = twinkle st"
  using twinkle_stuck_even[OF assms, of n] by simp

lemma twinkle_stuck_any:
  assumes "opacity st < 0.2" and "opacity st + twinkleSpeed st < 0.2"
  shows "opacity ((twinkle ^^ n) st) = opacity st
     \<or> opacity ((twinkle ^^ n) st) = opacity st + twinkleSpeed st"
proof (cases "even n")
  case True
  then obtain m where "n = 2 * m" by (auto elim: evenE)
  then show ?thesis using twinkle_stuck_even[OF assms, of m] by simp
next
  case False
  then obtain m where "n = 2 * m + 1" by (auto elim: oddE)
  then show ?thesis using twinkle_stuck_odd[OF assms, of m] twinkle_cycle[OF assms] by simp
qed

text \<open>
  Claim C8 fails on the code. A star whose opacity and whose opacity plus twinkle speed
  are both below 0.2 flips its twinkle speed on every frame, so its opacity alternates
  between these two values and never reaches the band \<open>[0.2, 1]\<close>. This is the state
  of every recycled star (opacity 0, speed of magnitude at most 0.012): after any
  number of frames its opacity is still at most 0.012.
\<close>

theorem twinkle_stuck_below_band:
  "(opacity st < 0.2 \<and> opacity st + twinkleSpeed st < 0.2 \<longrightarrow>
      opacity ((twinkle ^^ n) st) < 0.2
      \<and> (opacity ((twinkle ^^ n) st) = opacity st
          \<or> opacity ((twinkle ^^ n) st) = opacity st + twinkleSpeed st))
   \<and> (star_z st - 0.002 \<le> 0.2 \<and> \<bar>twinkleSpeed st\<bar> \<le> 0.012 \<longrightarrow>
      opacity ((twinkle ^^ n) (fst (driftStar w h g k st))) \<le> 0.012)"
proof -
  have a: "opacity st < 0.2 \<and> opacity st + twinkleSpeed st < 0.2 \<longrightarrow>
      opacity ((twinkle ^^ n) st) < 0.2
      \<and> (opacity ((twinkle ^^ n) st) = opacity st
          \<or> opacity ((twinkle ^^ n) st) = opacity st + twinkleSpeed st)"
    using twinkle_stuck_any[of st n] by auto
  have b: "star_z st - 0.002 \<le> 0.2 \<and> \<bar>twinkleSpeed st\<bar> \<le> 0.012 \<longrightarrow>
      opacity ((twinkle ^^ n) (fst (driftStar w h g k st))) \<le> 0.012"
  proof
    assume h: "star_z st - 0.002 \<le> 0.2 \<and> \<bar>twinkleSpeed st\<bar> \<le> 0.012"
    let ?r = "fst (driftStar w h g k st)"
    have o: "opacity ?r = 0" and sp: "twinkleSpeed ?r = twinkleSpeed st"
      using h by (simp_all add: driftStar_recycle)
    from h have le: "twinkleSpeed st \<le> 0.012" by linarith
    have "opacity ?r < 0.2" "opacity ?r + twinkleSpeed ?r < 0.2"
      using le by (simp_all add: o sp)
    then have "opacity ((twinkle ^^ n) ?r) = opacity ?r
        \<or> opacity ((twinkle ^^ n) ?r) = opacity ?r + twinkleSpeed ?r"
      by (rule twinkle_stuck_any)
    then show "opacity ((twinkle ^^ n) ?r) \<le> 0.012"
      using le by (auto simp add: o sp)
  qed
  show ?thesis using a b by blast
qed

theorem twinkle_stuck_below_band_witness:
  "opacity (fst (driftStar 800 600 (\<lambda>n. 1 / 2) 0 (exampleStar 5 5 0.201))) = 0
   \<and> twinkleSpeed (fst (driftStar 800 600 (\<lambda>n. 1 / 2) 0 (exampleStar 5 5 0.201))) = 0.01
   \<and> opacity ((twinkle ^^ 1000) (fst (driftStar 800 600 (\<lambda>n. 1 / 2) 0 (exampleStar 5 5 0.201)))) \<le> 0.012
   \<and> opacity ((twinkle ^^ 1000) ((exampleStar 5 5 1)\<lparr>opacity := 0.05\<rparr>)) < 0.2"
  using twinkle_stuck_below_band[of "exampleStar 5 5 0.201" 1000 800 600 "\<lambda>n. 1 / 2" 0]
    twinkle_stuck_below_band[of "(exampleStar 5 5 1)\<lparr>opacity := 0.05\<rparr>" 1000 800 600 "\<lambda>n. 1 / 2" 0]
  by (simp add: exampleStar_def driftStar_def driftSpeed_def Let_def)


subsection \<open>The planet points and their rotation\<close>

lemma planetPointAt_fib:
  "basePos (planetPointAt radius i nz) = fibSphere 1400 radius i
   \<and> (pt_x (planetPointAt radius i nz), pt_y (planetPointAt radius i nz),
       pt_z (planetPointAt radius i nz)) = fibSphere 1400 radius i
   \<and> noise (planetPointAt radius i nz) = nz"
  by (simp add: basePos_def planetPointAt_def fibSphere_def numPoints_def phi_def Let_def
      power2_eq_square mult.commute)

lemma sphere_unit:
  assumes "y\<^sup>2 \<le> (1::real)"
  shows "(cos a * sqrt (1 - y\<^sup>2) * \<rho>)\<^sup>2 + (y * \<rho>)\<^sup>2 + (sin a * sqrt (1 - y\<^sup>2) * \<rho>)\<^sup>2 = \<rho>\<^sup>2"
proof -
  have s: "(sqrt (1 - y\<^sup>2))\<^sup>2 = 1 - y\<^sup>2" using assms by simp
  have "(cos a * sqrt (1 - y\<^sup>2) * \<rho>)\<^sup>2 + (y * \<rho>)\<^sup>2 + (sin a * sqrt (1 - y\<^sup>2) * \<rho>)\<^sup>2
      = (1 - (sin a)\<^sup>2) * (1 - y\<^sup>2) * \<rho>\<^sup>2 + y\<^sup>2 * \<rho>\<^sup>2 + (sin a)\<^sup>2 * (1 - y\<^sup>2) * \<rho>\<^sup>2"
    by (simp only: power_mult_distrib s cos_squared_eq)
  also have "\<dots> = \<rho>\<^sup>2" by (simp add: algebra_simps)
  finally show ?thesis .
qed

lemma fib_y_range:
  assumes "i < 1400"
  shows "(1 - 2 * real i / (real (1400::nat) - 1))\<^sup>2 \<le> 1"
proof -
  have "real i \<le> 1399" using assms by simp
  then have "0 \<le> 2 * real i / 1399" "2 * real i / 1399 \<le> 2" by simp_all
  then have "\<bar>1 - 2 * real i / 1399\<bar> \<le> 1" by linarith
  then have "(1 - 2 * real i / 1399)\<^sup>2 \<le> 1\<^sup>2"
    by (metis abs_le_square_iff abs_one)
  then show ?thesis by simp
qed

lemma fibSphere_norm: "i < 1400 \<Longrightarrow> norm3 (fibSphere 1400 radius i) = \<bar>radius\<bar>"
proof -
  assume i: "i < 1400"
  let ?y = "1 - 2 * real i / (real (1400::nat) - 1)"
  have "norm3 (fibSphere 1400 radius i) =
      sqrt ((cos (real i * (pi * (3 - sqrt 5))) * sqrt (1 - ?y\<^sup>2) * radius)\<^sup>2 + (?y * radius)\<^sup>2
        + (sin (real i * (pi * (3 - sqrt 5))) * sqrt (1 - ?y\<^sup>2) * radius)\<^sup>2)"
    by (simp add: norm3_def fibSphere_def Let_def)
  also have "\<dots> = sqrt (radius\<^sup>2)"
    using sphere_unit[OF fib_y_range[OF i]] by simp
  finally show ?thesis by simp
qed

lemma norm3_axis: "norm3 (0, r, 0) = \<bar>r\<bar>"
  by (simp add: norm3_def)

lemma initPlanet_nth:
  "i < 1400 \<Longrightarrow> fst (initPlanet w h g k) ! i = planetPointAt (min w h * 0.30) i (g (k + i))"
  by (simp add: initPlanet_def Let_def numPoints_def)

lemma initPlanet_length: "length (fst (initPlanet w h g k)) = 1400"
  by (simp add: initPlanet_def Let_def numPoints_def)

lemma rotatePoint_norm: "norm3 (rotatePoint rot p) = norm3 (basePos p)"
proof -
  have "(baseX p * cos rot - baseZ p * sin rot)\<^sup>2 + (baseX p * sin rot + baseZ p * cos rot)\<^sup>2
      = (baseX p)\<^sup>2 * (1 - (sin rot)\<^sup>2) + (baseZ p)\<^sup>2 * (sin rot)\<^sup>2
        + ((baseX p)\<^sup>2 * (sin rot)\<^sup>2 + (baseZ p)\<^sup>2 * (1 - (sin rot)\<^sup>2))"
    by (simp add: power2_diff power2_sum power_mult_distrib cos_squared_eq)
  also have "\<dots> = (baseX p)\<^sup>2 + (baseZ p)\<^sup>2" by (simp add: algebra_simps)
  finally have "(baseX p * cos rot - baseZ p * sin rot)\<^sup>2 + (baseY p)\<^sup>2
       + (baseX p * sin rot + baseZ p * cos rot)\<^sup>2 = (baseX p)\<^sup>2 + (baseY p)\<^sup>2 + (baseZ p)\<^sup>2"
    by simp
  then show ?thesis
    by (simp add: norm3_def rotatePoint_def basePos_def Let_def)
qed

lemma initPlanet_member:
  "p \<in> set (fst (initPlanet w h g k)) \<Longrightarrow>
     \<exists>i < 1400. p = planetPointAt (min w h * 0.30) i (g (k + i))"
  by (auto simp add: initPlanet_def Let_def numPoints_def)

lemma initPlanet_norm:
  "p \<in> set (fst (initPlanet w h g k)) \<Longrightarrow> norm3 (basePos p) = \<bar>min w h * 0.30\<bar>"
  using initPlanet_member[of p w h g k] planetPointAt_fib fibSphere_norm by metis

text \<open>
  Claim C6. For every width and height, \<open>initPlanet\<close> produces exactly 1400 points, and
  the point at each index \<open>i\<close> has as its base position (and as its initial position)
  the Fibonacci-sphere formula of the specification at \<open>i\<close>, scaled by the radius
  \<open>0.30 * min(W, H)\<close>, with the noise drawn for it. The Euclidean norm of every base
  position is the absolute value of the radius, hence the radius itself for a surface
  of non-negative width and height.
\<close>

theorem initPlanet_fibonacci:
  "length (fst (initPlanet w h g k)) = 1400
   \<and> (i < 1400 \<longrightarrow>
        basePos (fst (initPlanet w h g k) ! i) = fibSphere 1400 (0.30 * min w h) i
        \<and> (pt_x (fst (initPlanet w h g k) ! i), pt_y (fst (initPlanet w h g k) ! i),
            pt_z (fst (initPlanet w h g k) ! i)) = fibSphere 1400 (0.30 * min w h) i
        \<and> noise (fst (initPlanet w h g k) ! i) = g (k + i)
        \<and> norm3 (basePos (fst (initPlanet w h g k) ! i)) = \<bar>0.30 * min w h\<bar>)
   \<and> (0 \<le> w \<and> 0 \<le> h \<and> i < 1400 \<longrightarrow>
        norm3 (basePos (fst (initPlanet w h g k) ! i)) = 0.30 * min w h)"
proof -
  have a: "length (fst (initPlanet w h g k)) = 1400"
    by (rule initPlanet_length)
  have b: "i < 1400 \<longrightarrow>
        basePos (fst (initPlanet w h g k) ! i) = fibSphere 1400 (0.30 * min w h) i
        \<and> (pt_x (fst (initPlanet w h g k) ! i), pt_y (fst (initPlanet w h g k) ! i),
            pt_z (fst (initPlanet w h g k) ! i)) = fibSphere 1400 (0.30 * min w h) i
        \<and> noise (fst (initPlanet w h g k) ! i) = g (k + i)"
    using planetPointAt_fib[of "min w h * 0.30" i "g (k + i)"]
    by (simp add: initPlanet_nth mult.commute)
  have c: "i < 1400 \<longrightarrow> norm3 (basePos (fst (initPlanet w h g k) ! i)) = \<bar>0.30 * min w h\<bar>"
    using b fibSphere_norm[of i "0.30 * min w h"] by simp
  have d: "0 \<le> w \<and> 0 \<le> h \<and> i < 1400 \<longrightarrow>
        norm3 (basePos (fst (initPlanet w h g k) ! i)) = 0.30 * min w h"
    using c by simp
  show ?thesis using a b c d by blast
qed

theorem initPlanet_fibonacci_witness:
  "basePos (fst (initPlanet 800 600 (\<lambda>n. 1 / 2) 0) ! 0) = (0, 180, 0)
   \<and> noise (fst (initPlanet 800 600 (\<lambda>n. 1 / 2) 0) ! 0) = 1 / 2
   \<and> norm3 (basePos (fst (initPlanet 800 600 (\<lambda>n. 1 / 2) 0) ! 0)) = 180
   \<and> basePos (fst (initPlanet 800 600 (\<lambda>n. 1 / 2) 0) ! 1399) = (0, - 180, 0)"
  using initPlanet_fibonacci[of 800 600 "\<lambda>n. 1 / 2" 0 0]
    initPlanet_fibonacci[of 800 600 "\<lambda>n. 1 / 2" 0 1399]
  by (simp add: fibSphere_def Let_def norm3_axis)

text \<open>
  Claim C10. The per-frame rotation of a planet point about the vertical axis keeps
  the Euclidean norm: for every point and every angle, the rotated position
  \<open>(baseX cos - baseZ sin, baseY, baseX sin + baseZ cos)\<close> has the norm of the base
  position. So every rotated point of the cloud that \<open>initPlanet\<close> makes for a surface
  of non-negative size lies on the sphere of radius \<open>0.30 * min(W, H)\<close>.
\<close>

theorem rotation_isometry:
  "norm3 (rotatePoint rot p) = norm3 (basePos p)
   \<and> (0 \<le> w \<and> 0 \<le> h \<and> p \<in> set (fst (initPlanet w h g k)) \<longrightarrow>
        norm3 (rotatePoint rot p) = 0.30 * min w h)"
proof -
  have a: "norm3 (rotatePoint rot p) = norm3 (basePos p)"
    by (rule rotatePoint_norm)
  have b: "0 \<le> w \<and> 0 \<le> h \<and> p \<in> set (fst (initPlanet w h g k)) \<longrightarrow>
        norm3 (rotatePoint rot p) = 0.30 * min w h"
    using initPlanet_norm[of p w h g k] by (auto simp add: a)
  show ?thesis using a b by blast
qed

theorem rotation_isometry_witness:
  "fst (initPlanet 800 600 (\<lambda>n. 1 / 2) 0) ! 0 \<in> set (fst (initPlanet 800 600 (\<lambda>n. 1 / 2) 0))
   \<and> rotatePoint (pi / 2) (fst (initPlanet 800 600 (\<lambda>n. 1 / 2) 0) ! 0) = (0, 180, 0)
   \<and> norm3 (rotatePoint (pi / 2) (fst (initPlanet 800 600 (\<lambda>n. 1 / 2) 0) ! 0)) = 180"
  using rotation_isometry[of "pi / 2" "fst (initPlanet 800 600 (\<lambda>n. 1 / 2) 0) ! 0" 800 600 "\<lambda>n. 1 / 2" 0]
    initPlanet_length[of 800 600 "\<lambda>n. 1 / 2" 0]
    nth_mem[of 0 "fst (initPlanet 800 600 (\<lambda>n. 1 / 2) 0)"]
  by (simp add: initPlanet_nth planetPointAt_def numPoints_def rotatePoint_def Let_def norm3_axis)


subsection \<open>Spawning a connection\<close>

lemma length_examined: "length (examined ss startI g k n) \<le> n"
proof (induction n arbitrary: k)
  case 0
  then show ?case by simp
next
  case (Suc n)
  show ?case using Suc.IH[of "k + 1"] by (simp add: Let_def le_SucI)
qed

lemma examined_valid:
  "c \<in> set (examined ss startI g k n) \<Longrightarrow> c \<noteq> startI \<and> star_at ss c \<noteq> None"
  by (induction n arbitrary: k) (auto simp add: Let_def split: if_splits)

lemma bestInv_step:
  assumes inv: "bestInv ss startStar seen best"
    and s2: "star_at ss c = Some s2"
  shows "bestInv ss startStar (seen @ [c])
     (if sqDist startStar s2 < 50000 * star_z startStar \<and> lessThanBest (sqDist startStar s2) (fst best)
         \<and> \<bar>star_z startStar - star_z s2\<bar> < 0.5
      then (Some (sqDist startStar s2), c) else best)"
proof -
  have q: "qualifies ss startStar c =
      (sqDist startStar s2 < 50000 * star_z startStar \<and> \<bar>star_z startStar - star_z s2\<bar> < 0.5)"
    by (simp add: qualifies_def s2)
  have d: "distTo ss startStar c = sqDist startStar s2"
    by (simp add: distTo_def s2)
  from inv consider
      (none) "fst best = None" "snd best = - 1" "\<forall>c \<in> set seen. \<not> qualifies ss startStar c"
    | (some) "snd best \<in> set seen" "qualifies ss startStar (snd best)"
        "fst best = Some (distTo ss startStar (snd best))"
        "\<forall>c \<in> set seen. qualifies ss startStar c
            \<longrightarrow> distTo ss startStar (snd best) \<le> distTo ss startStar c"
    unfolding bestInv_def by fastforce
  then show ?thesis
  proof cases
    case none
    then show ?thesis
      by (auto simp add: bestInv_def q d lessThanBest_def)
  next
    case some
    show ?thesis
    proof (cases "qualifies ss startStar c \<and> sqDist startStar s2 < distTo ss startStar (snd best)")
      case True
      then have "bestInv ss startStar (seen @ [c]) (Some (sqDist startStar s2), c)"
        using some unfolding bestInv_def by (auto simp add: d)
      then show ?thesis using True some(3) by (auto simp add: q lessThanBest_def)
    next
      case False
      then have "bestInv ss startStar (seen @ [c]) best"
        using some unfolding bestInv_def by (auto simp add: d)
      then show ?thesis using False some(3) by (auto simp add: q lessThanBest_def)
    qed
  qed
qed

lemma bestInv_candLoop:
  "bestInv ss startStar seen best \<Longrightarrow>
     bestInv ss startStar (seen @ examined ss startI g k n) (candLoop ss startI startStar g k n best)"
proof (induction n arbitrary: k best seen)
  case 0
  then show ?case by simp
next
  case (Suc n)
  let ?c = "\<lfloor>g k * real (length ss)\<rfloor>"
  show ?case
  proof (cases "?c = startI \<or> star_at ss ?c = None")
    case True
    then show ?thesis using Suc.IH[OF Suc.prems, of "k + 1"]
      by (auto simp add: Let_def)
  next
    case False
    then obtain s2 where s2: "star_at ss ?c = Some s2" by auto
    let ?b = "if sqDist startStar s2 < 50000 * star_z startStar
         \<and> lessThanBest (sqDist startStar s2) (fst best)
         \<and> \<bar>star_z startStar - star_z s2\<bar> < 0.5
      then (Some (sqDist startStar s2), ?c) else best"
    have "bestInv ss startStar (seen @ [?c]) ?b"
      using Suc.prems s2 by (rule bestInv_step)
    then have "bestInv ss startStar ((seen @ [?c]) @ examined ss startI g (k + 1) n)
        (candLoop ss startI startStar g (k + 1) n ?b)"
      by (rule Suc.IH)
    moreover have "candLoop ss startI startStar g k (Suc n) best
        = candLoop ss startI startStar g (k + 1) n ?b"
      using False s2 by (simp add: Let_def)
    moreover have "examined ss startI g k (Suc n) = ?c # examined ss startI g (k + 1) n"
      using False by (simp add: Let_def)
    ultimately show ?thesis by simp
  qed
qed

lemma candLoop_result:
  "bestInv ss startStar (examined ss startI g k n) (candLoop ss startI startStar g k n (None, - 1))"
  using bestInv_candLoop[of ss startStar "[]" "(None, - 1)" startI g k n]
  by (simp add: bestInv_def)

lemma spawnConnection_created:
  assumes "fst (spawnConnection ss g k conns) \<noteq> conns"
  shows "\<exists>startStar.
      spawnConnection ss g k conns =
        (conns @ [newConnection \<lfloor>g (k + 1) * real (length ss)\<rfloor>
            (snd (candLoop ss \<lfloor>g (k + 1) * real (length ss)\<rfloor> startStar g (k + 2) 20 (None, - 1)))
            (g (k + 22) * 0.4 + 0.6)], k + 23)
      \<and> g k < 0.03
      \<and> star_at ss \<lfloor>g (k + 1) * real (length ss)\<rfloor> = Some startStar
      \<and> 0.5 < star_z startStar \<and> star_z startStar < 3.0
      \<and> snd (candLoop ss \<lfloor>g (k + 1) * real (length ss)\<rfloor> startStar g (k + 2) 20 (None, - 1)) \<noteq> - 1"
  using assms
  by (auto simp add: spawnConnection_def newConnection_def Let_def split: if_splits option.splits)

lemma spawnConnection_not_created:
  assumes "star_at ss \<lfloor>g (k + 1) * real (length ss)\<rfloor> = Some startStar"
    and "snd (candLoop ss \<lfloor>g (k + 1) * real (length ss)\<rfloor> startStar g (k + 2) 20 (None, - 1)) = - 1"
  shows "fst (spawnConnection ss g k conns) = conns"
  using assms by (simp add: spawnConnection_def Let_def)

lemma exampleRandom_valid: "validRandom exampleRandom"
  by (simp add: validRandom_def exampleRandom_def)

lemma example_spawn:
  "spawnConnection [exampleStar 0 0 1, exampleStar 10 0 1.2] exampleRandom 0 []
     = ([newConnection 0 1 0.8], 23)"
  by (simp add: spawnConnection_def exampleRandom_def exampleStar_def star_at_def Let_def
      sqDist_def lessThanBest_def newConnection_def eval_nat_numeral)

lemma example_examined:
  "examined [exampleStar 0 0 1, exampleStar 10 0 z] 0 exampleRandom (0 + 2) 20 = replicate 20 1"
  by (simp add: exampleRandom_def exampleStar_def star_at_def Let_def eval_nat_numeral)

text \<open>
  Claim C9, as the code has it. Whenever the spawn attempt of a frame creates a
  connection, exactly one connection is appended; the draw for the attempt was below
  0.03; the start star picked at random exists and its depth lies in \<open>(0.5, 3.0)\<close>; at
  most 20 candidates were examined; the end index is one of the examined candidates,
  differs from the start index, qualifies (squared distance over the stars' own \<open>x\<close>
  and \<open>y\<close>, before any projection, below \<open>50000 * startDepth\<close>, and depth difference
  below 0.5) and is at the least such squared distance among the examined candidates
  that qualify; the new connection has life 0, state growing and, for a well-formed
  random source, \<open>maxLife\<close> in \<open>[0.6, 1.0]\<close>. If no examined candidate qualifies, no
  connection is created.
\<close>

theorem spawn_connection:
  "(fst (spawnConnection ss g k conns) \<noteq> conns \<longrightarrow>
      (\<exists>startStar bestI.
         spawnConnection ss g k conns =
           (conns @ [newConnection \<lfloor>g (k + 1) * real (length ss)\<rfloor> bestI (g (k + 22) * 0.4 + 0.6)],
            k + 23)
         \<and> g k < 0.03
         \<and> star_at ss \<lfloor>g (k + 1) * real (length ss)\<rfloor> = Some startStar
         \<and> 0.5 < star_z startStar \<and> star_z startStar < 3.0
         \<and> length (examined ss \<lfloor>g (k + 1) * real (length ss)\<rfloor> g (k + 2) 20) \<le> 20
         \<and> bestI \<in> set (examined ss \<lfloor>g (k + 1) * real (length ss)\<rfloor> g (k + 2) 20)
         \<and> bestI \<noteq> \<lfloor>g (k + 1) * real (length ss)\<rfloor>
         \<and> qualifies ss startStar bestI
         \<and> (\<forall>c \<in> set (examined ss \<lfloor>g (k + 1) * real (length ss)\<rfloor> g (k + 2) 20).
               qualifies ss startStar c \<longrightarrow> distTo ss startStar bestI \<le> distTo ss startStar c)
         \<and> (validRandom g \<longrightarrow>
               0.6 \<le> g (k + 22) * 0.4 + 0.6 \<and> g (k + 22) * 0.4 + 0.6 \<le> 1.0)))
   \<and> (star_at ss \<lfloor>g (k + 1) * real (length ss)\<rfloor> = Some startStar0
        \<and> (\<forall>c \<in> set (examined ss \<lfloor>g (k + 1) * real (length ss)\<rfloor> g (k + 2) 20).
              \<not> qualifies ss startStar0 c)
      \<longrightarrow> fst (spawnConnection ss g k conns) = conns)"
proof -
  let ?startI = "\<lfloor>g (k + 1) * real (length ss)\<rfloor>"
  let ?ex = "examined ss ?startI g (k + 2) 20"
  have a: "fst (spawnConnection ss g k conns) \<noteq> conns \<longrightarrow>
      (\<exists>startStar bestI.
         spawnConnection ss g k conns =
           (conns @ [newConnection ?startI bestI (g (k + 22) * 0.4 + 0.6)], k + 23)
         \<and> g k < 0.03
         \<and> star_at ss ?startI = Some startStar
         \<and> 0.5 < star_z startStar \<and> star_z startStar < 3.0
         \<and> length ?ex \<le> 20
         \<and> bestI \<in> set ?ex
         \<and> bestI \<noteq> ?startI
         \<and> qualifies ss startStar bestI
         \<and> (\<forall>c \<in> set ?ex.
               qualifies ss startStar c \<longrightarrow> distTo ss startStar bestI \<le> distTo ss startStar c)
         \<and> (validRandom g \<longrightarrow>
               0.6 \<le> g (k + 22) * 0.4 + 0.6 \<and> g (k + 22) * 0.4 + 0.6 \<le> 1.0))"
  proof
    assume "fst (spawnConnection ss g k conns) \<noteq> conns"
    then obtain startStar where
        sp: "spawnConnection ss g k conns =
          (conns @ [newConnection ?startI
              (snd (candLoop ss ?startI startStar g (k + 2) 20 (None, - 1)))
              (g (k + 22) * 0.4 + 0.6)], k + 23)"
      and r: "g k < 0.03"
      and st: "star_at ss ?startI = Some startStar"
      and z: "0.5 < star_z startStar" "star_z startStar < 3.0"
      and b: "snd (candLoop ss ?startI startStar g (k + 2) 20 (None, - 1)) \<noteq> - 1"
      using spawnConnection_created by blast
    let ?best = "candLoop ss ?startI startStar g (k + 2) 20 (None, - 1)"
    have inv: "bestInv ss startStar ?ex ?best"
      by (rule candLoop_result)
    have m: "snd ?best \<in> set ?ex" and q: "qualifies ss startStar (snd ?best)"
      and mn: "\<forall>c \<in> set ?ex. qualifies ss startStar c
          \<longrightarrow> distTo ss startStar (snd ?best) \<le> distTo ss startStar c"
      using inv b unfolding bestInv_def by blast+
    have ne: "snd ?best \<noteq> ?startI"
      using examined_valid[OF m] by simp
    have ml: "validRandom g \<longrightarrow>
        0.6 \<le> g (k + 22) * 0.4 + 0.6 \<and> g (k + 22) * 0.4 + 0.6 \<le> 1.0"
    proof
      assume "validRandom g"
      then have "0 \<le> g (k + 22)" "g (k + 22) < 1" by (simp_all add: validRandom_def)
      then show "0.6 \<le> g (k + 22) * 0.4 + 0.6 \<and> g (k + 22) * 0.4 + 0.6 \<le> 1.0" by simp
    qed
    show "\<exists>startStar bestI.
         spawnConnection ss g k conns =
           (conns @ [newConnection ?startI bestI (g (k + 22) * 0.4 + 0.6)], k + 23)
         \<and> g k < 0.03
         \<and> star_at ss ?startI = Some startStar
         \<and> 0.5 < star_z startStar \<and> star_z startStar < 3.0
         \<and> length ?ex \<le> 20
         \<and> bestI \<in> set ?ex
         \<and> bestI \<noteq> ?startI
         \<and> qualifies ss startStar bestI
         \<and> (\<forall>c \<in> set ?ex.
               qualifies ss startStar c \<longrightarrow> distTo ss startStar bestI \<le> distTo ss startStar c)
         \<and> (validRandom g \<longrightarrow>
               0.6 \<le> g (k + 22) * 0.4 + 0.6 \<and> g (k + 22) * 0.4 + 0.6 \<le> 1.0)"
      using sp r st z length_examined[of ss ?startI g "k + 2" 20] m ne q mn ml by blast
  qed
  have b: "star_at ss ?startI = Some startStar0
        \<and> (\<forall>c \<in> set ?ex. \<not> qualifies ss startStar0 c)
      \<longrightarrow> fst (spawnConnection ss g k conns) = conns"
  proof
    assume h: "star_at ss ?startI = Some startStar0
        \<and> (\<forall>c \<in> set ?ex. \<not> qualifies ss startStar0 c)"
    have "bestInv ss startStar0 ?ex (candLoop ss ?startI startStar0 g (k + 2) 20 (None, - 1))"
      by (rule candLoop_result)
    then have "snd (candLoop ss ?startI startStar0 g (k + 2) 20 (None, - 1)) = - 1"
      using h unfolding bestInv_def by blast
    then show "fst (spawnConnection ss g k conns) = conns"
      using h spawnConnection_not_created[of ss g k startStar0 conns] by simp
  qed
  show ?thesis using a b by blast
qed

theorem spawn_connection_witness:
  "validRandom exampleRandom
   \<and> spawnConnection [exampleStar 0 0 1, exampleStar 10 0 1.2] exampleRandom 0 []
        = ([newConnection 0 1 0.8], 23)
   \<and> exampleRandom 0 < 0.03
   \<and> star_at [exampleStar 0 0 1, exampleStar 10 0 1.2] 0 = Some (exampleStar 0 0 1)
   \<and> qualifies [exampleStar 0 0 1, exampleStar 10 0 1.2] (exampleStar 0 0 1) 1
   \<and> distTo [exampleStar 0 0 1, exampleStar 10 0 1.2] (exampleStar 0 0 1) 1 = 100
   \<and> \<not> qualifies [exampleStar 0 0 1, exampleStar 10 0 2] (exampleStar 0 0 1) 1
   \<and> fst (spawnConnection [exampleStar 0 0 1, exampleStar 10 0 2] exampleRandom 0 []) = []"
proof -
  let ?ss1 = "[exampleStar 0 0 1, exampleStar 10 0 1.2]"
  let ?ss2 = "[exampleStar 0 0 1, exampleStar 10 0 2]"
  have st1: "star_at ?ss1 0 = Some (exampleStar 0 0 1)"
    by (simp add: star_at_def)
  have q1: "qualifies ?ss1 (exampleStar 0 0 1) 1"
    by (simp add: qualifies_def star_at_def sqDist_def exampleStar_def)
  have d1: "distTo ?ss1 (exampleStar 0 0 1) 1 = 100"
    by (simp add: distTo_def star_at_def sqDist_def exampleStar_def)
  have q2: "\<not> qualifies ?ss2 (exampleStar 0 0 1) 1"
    by (simp add: qualifies_def star_at_def sqDist_def exampleStar_def)
  have i0: "\<lfloor>exampleRandom (0 + 1) * real (length ?ss2)\<rfloor> = 0"
    by (simp add: exampleRandom_def)
  have st2: "star_at ?ss2 \<lfloor>exampleRandom (0 + 1) * real (length ?ss2)\<rfloor> = Some (exampleStar 0 0 1)"
    unfolding i0 by (simp add: star_at_def)
  have ex2: "\<forall>c \<in> set (examined ?ss2 \<lfloor>exampleRandom (0 + 1) * real (length ?ss2)\<rfloor>
        exampleRandom (0 + 2) 20). \<not> qualifies ?ss2 (exampleStar 0 0 1) c"
    unfolding i0 example_examined using q2 by simp
  have n2: "fst (spawnConnection ?ss2 exampleRandom 0 []) = []"
    using spawn_connection[of ?ss2 exampleRandom 0 "[]" "exampleStar 0 0 1"] st2 ex2 by blast
  have c1: "exampleRandom 0 < 0.03"
    using spawn_connection[of ?ss1 exampleRandom 0 "[]" "exampleStar 0 0 1"] example_spawn
    by auto
  show ?thesis
    using exampleRandom_valid example_spawn c1 st1 q1 d1 q2 n2 by simp
qed

text \<open>
  The distance of the search is not the distance on screen. \<open>screenPos\<close> is the
  projection the connection loop draws with; for the stars \<open>(0, 0, 1)\<close>,
  \<open>(100, 0, 1.4)\<close> and \<open>(90, 0, 0.6)\<close>, with the first as start star and the other two
  examined, the code chooses the third (squared distance 8100 against 10000 over
  \<open>x\<close> and \<open>y\<close>), although on screen, at zoom 1 with no offset, the second is nearer
  (250000/49 against 22500) and qualifies as well.
\<close>

lemma stepConnection_line:
  "stepConnection e ss c = Keep conn (Some l) reads \<Longrightarrow>
     \<exists>s1 s2. star_at ss (startIdx conn) = Some s1 \<and> star_at ss (endIdx conn) = Some s2
       \<and> (line_x1 l, line_y1 l) = screenPos e s1 \<and> (line_x2 l, line_y2 l) = screenPos e s2"
  by (auto simp add: stepConnection_def screenPos_def Let_def split: if_splits option.splits)

lemma exampleStar_z: "star_z (exampleStar x y z) = z"
  by (simp add: exampleStar_def)

lemma example2_valid: "validRandom exampleRandom2"
  by (simp add: validRandom_def exampleRandom2_def)

lemma example2_spawn:
  "spawnConnection [exampleStar 0 0 1, exampleStar 100 0 1.4, exampleStar 90 0 0.6]
     exampleRandom2 0 [] = ([newConnection 0 2 0.96], 23)"
  by (simp add: spawnConnection_def exampleRandom2_def exampleStar_def star_at_def Let_def
      sqDist_def lessThanBest_def newConnection_def eval_nat_numeral)

lemma example2_examined:
  "examined [exampleStar 0 0 1, exampleStar 100 0 1.4, exampleStar 90 0 0.6] 0
     exampleRandom2 2 20 = 1 # replicate 19 2"
  by (simp add: exampleRandom2_def exampleStar_def star_at_def Let_def eval_nat_numeral)

theorem spawn_not_nearest_on_screen:
  "validRandom exampleRandom2
   \<and> spawnConnection [exampleStar 0 0 1, exampleStar 100 0 1.4, exampleStar 90 0 0.6]
        exampleRandom2 0 [] = ([newConnection 0 2 0.96], 23)
   \<and> 1 \<in> set (examined [exampleStar 0 0 1, exampleStar 100 0 1.4, exampleStar 90 0 0.6] 0
        exampleRandom2 2 20)
   \<and> qualifiesOnScreen exampleEnv [exampleStar 0 0 1, exampleStar 100 0 1.4, exampleStar 90 0 0.6]
        (exampleStar 0 0 1) 1
   \<and> qualifiesOnScreen exampleEnv [exampleStar 0 0 1, exampleStar 100 0 1.4, exampleStar 90 0 0.6]
        (exampleStar 0 0 1) 2
   \<and> screenSqDist exampleEnv (exampleStar 0 0 1) (exampleStar 100 0 1.4) = 250000 / 49
   \<and> screenSqDist exampleEnv (exampleStar 0 0 1) (exampleStar 90 0 0.6) = 22500
   \<and> screenSqDist exampleEnv (exampleStar 0 0 1) (exampleStar 100 0 1.4)
        < screenSqDist exampleEnv (exampleStar 0 0 1) (exampleStar 90 0 0.6)"
proof -
  have d1: "screenSqDist exampleEnv (exampleStar 0 0 1) (exampleStar 100 0 1.4) = 250000 / 49"
    by (simp add: screenSqDist_def screenPos_def exampleEnv_def exampleStar_def Let_def
        power2_eq_square)
  have d2: "screenSqDist exampleEnv (exampleStar 0 0 1) (exampleStar 90 0 0.6) = 22500"
    by (simp add: screenSqDist_def screenPos_def exampleEnv_def exampleStar_def Let_def
        power2_eq_square)
  have q1: "qualifiesOnScreen exampleEnv
      [exampleStar 0 0 1, exampleStar 100 0 1.4, exampleStar 90 0 0.6] (exampleStar 0 0 1) 1"
    using d1 by (simp add: qualifiesOnScreen_def star_at_def exampleStar_z)
  have q2: "qualifiesOnScreen exampleEnv
      [exampleStar 0 0 1, exampleStar 100 0 1.4, exampleStar 90 0 0.6] (exampleStar 0 0 1) 2"
    using d2 by (simp add: qualifiesOnScreen_def star_at_def exampleStar_z)
  have m: "1 \<in> set (examined [exampleStar 0 0 1, exampleStar 100 0 1.4, exampleStar 90 0 0.6] 0
      exampleRandom2 2 20)"
    unfolding example2_examined by simp
  show ?thesis
    using example2_valid example2_spawn m q1 q2 d1 d2 by simp
qed

end
